theory Spec2Isabelle
  imports Main "HOL-Library.Word"
begin

unbundle bit_operations_syntax

section \<open>Data model\<close>

text \<open>
  The image and every code buffer is a \<open>std::vector<uint8_t>\<close>: a list of bytes.
  Cursors (\<open>size_t\<close>) are natural numbers: a cursor never exceeds the buffer length by
  more than 5, and a vector's length is far below \<open>2 ^ 64\<close>, so \<open>size_t\<close> arithmetic
  on cursors never wraps. The header fields keep their declared widths. A pointer into
  the image is its offset from the start of the buffer, a 64-bit value: pointer sums
  wrap modulo \<open>2 ^ 64\<close>, and a pointer whose offset is at or past the length points
  outside the buffer.
\<close>

type_synonym byte = "8 word"

text \<open>
  The outcomes the program reports, named as the specification names them; the source
  reports each by a diagnostic line:
  \<^item> \<open>NotRecognizedFormat\<close>: "Not an ELF file";
  \<^item> \<open>TooShort\<close>: "File is too small to be a valid ELF32/ELF64 file";
  \<^item> \<open>UnknownClass\<close>: "Unknown ELF class";
  \<^item> \<open>NoSectionTable\<close>: "No section header table found";
  \<^item> \<open>InvalidStringTableIndex\<close>: "Invalid section string table index";
  \<^item> \<open>SectionNotFound\<close>: "No .text section found";
  \<^item> \<open>RegionExceedsImage\<close>: "Error: .text section exceeds file size.";
  \<^item> \<open>TruncatedOperand\<close>: "Unexpected end of code".

  Two more ways a run can end are not reports of the program.
  \<open>LengthError\<close>: the range constructor of \<open>std::vector\<close> is given a range whose length,
  as a signed 64-bit difference, is negative, and throws \<open>std::length_error\<close>, which
  nothing catches.
  \<open>OutOfBoundsRead\<close> marks an execution in which the source indexes a vector, or
  dereferences a pointer into its buffer, at a position outside the bytes that are
  given (undefined behaviour in C++): what the program does from there on is not
  determined by those bytes.
\<close>

datatype error =
    NotRecognizedFormat
  | TooShort
  | UnknownClass
  | NoSectionTable
  | InvalidStringTableIndex
  | SectionNotFound
  | RegionExceedsImage
  | TruncatedOperand
  | LengthError
  | OutOfBoundsRead

text \<open>\<open>v[k]\<close> on a vector: defined only below the length.\<close>

definition vec_at :: "byte list \<Rightarrow> nat \<Rightarrow> byte option" where
  "vec_at v k = (if k < length v then Some (v ! k) else None)"

section \<open>Instruction decoder\<close>

text \<open>
  \<open>read32\<close> (main.cpp and the stand-alone decoder): four indexed reads, combined
  little-endian. The source performs no check of its own.
\<close>

definition read32 :: "byte list \<Rightarrow> nat \<Rightarrow> 32 word option" where
  "read32 code index =
     (case vec_at code index of None \<Rightarrow> None | Some b0 \<Rightarrow>
      case vec_at code (index + 1) of None \<Rightarrow> None | Some b1 \<Rightarrow>
      case vec_at code (index + 2) of None \<Rightarrow> None | Some b2 \<Rightarrow>
      case vec_at code (index + 3) of None \<Rightarrow> None | Some b3 \<Rightarrow>
        Some (ucast b0 OR push_bit 8 (ucast b1) OR push_bit 16 (ucast b2)
              OR push_bit 24 (ucast b3)))"

text \<open>
  One printed line of the listing is one record: the address written at the head of the
  loop body, the mnemonic, the operand, and the number of bytes the cursor moved.
  The record is complete when the mnemonic line has been written; a step that ends in
  an error has written the address prefix only and yields no record.
\<close>

datatype operand = NoOperand | RegImm string "32 word" | RawByte byte

record decoded =
  address :: "64 word"
  mnemonic :: string
  operand :: operand
  byteWidth :: nat

datatype step = Emit decoded nat | Stop "error option"

definition reg_names :: "string list" where
  "reg_names = [''rax'', ''rcx'', ''rdx'', ''rbx'', ''rsp'', ''rbp'', ''rsi'', ''rdi'']"

definition reg_names32 :: "string list" where
  "reg_names32 = [''eax'', ''ecx'', ''edx'', ''ebx'', ''esp'', ''ebp'', ''esi'', ''edi'']"

text \<open>The body of the \<open>while\<close> loop of \<open>disassemble\<close> in main.cpp, at cursor \<open>i\<close>.\<close>

definition disassemble_step :: "byte list \<Rightarrow> 64 word \<Rightarrow> nat \<Rightarrow> step" where
  "disassemble_step code baseAddress i =
     (case vec_at code i of
        None \<Rightarrow> Stop (Some OutOfBoundsRead)
      | Some opcode \<Rightarrow>
          if 0xB8 \<le> opcode \<and> opcode \<le> 0xBF then
            if i + 4 > length code then Stop (Some TruncatedOperand)
            else
              (case read32 code (i + 1) of
                 None \<Rightarrow> Stop (Some OutOfBoundsRead)
               | Some imm \<Rightarrow>
                   let reg = unat opcode - 0xB8 in
                   Emit \<lparr>address = baseAddress + of_nat i, mnemonic = ''mov'',
                         operand = RegImm (reg_names ! reg) imm, byteWidth = 5\<rparr> (i + 5))
          else if opcode = 0x90 then
            Emit \<lparr>address = baseAddress + of_nat i, mnemonic = ''nop'',
                  operand = NoOperand, byteWidth = 1\<rparr> (i + 1)
          else
            Emit \<lparr>address = baseAddress + of_nat i, mnemonic = ''db'',
                  operand = RawByte opcode, byteWidth = 1\<rparr> (i + 1))"

text \<open>
  The loop body of the stand-alone decoder (32-bit register names, \<open>ret\<close> recognised,
  no base address).
\<close>

definition disassemble32_step :: "byte list \<Rightarrow> nat \<Rightarrow> step" where
  "disassemble32_step code i =
     (case vec_at code i of
        None \<Rightarrow> Stop (Some OutOfBoundsRead)
      | Some opcode \<Rightarrow>
          if 0xB8 \<le> opcode \<and> opcode \<le> 0xBF then
            if i + 4 > length code then Stop (Some TruncatedOperand)
            else
              (case read32 code (i + 1) of
                 None \<Rightarrow> Stop (Some OutOfBoundsRead)
               | Some imm \<Rightarrow>
                   let reg = unat opcode - 0xB8 in
                   Emit \<lparr>address = of_nat i, mnemonic = ''mov'',
                         operand = RegImm (reg_names32 ! reg) imm, byteWidth = 5\<rparr> (i + 5))
          else if opcode = 0xC3 then
            Emit \<lparr>address = of_nat i, mnemonic = ''ret'',
                  operand = NoOperand, byteWidth = 1\<rparr> (i + 1)
          else if opcode = 0x90 then
            Emit \<lparr>address = of_nat i, mnemonic = ''nop'',
                  operand = NoOperand, byteWidth = 1\<rparr> (i + 1)
          else
            Emit \<lparr>address = of_nat i, mnemonic = ''db'',
                  operand = RawByte opcode, byteWidth = 1\<rparr> (i + 1))"

text \<open>
  The \<open>while (i < code.size())\<close> loop: the records written from cursor \<open>i\<close> on, and how
  the loop ended (\<open>None\<close>: the cursor reached the end).
\<close>

function disassemble_loop :: "byte list \<Rightarrow> 64 word \<Rightarrow> nat \<Rightarrow> decoded list \<times> error option" where
  "disassemble_loop code baseAddress i =
     (if i < length code then
        (case disassemble_step code baseAddress i of
           Stop e \<Rightarrow> ([], e)
         | Emit r j \<Rightarrow>
             (case disassemble_loop code baseAddress j of (rs, e) \<Rightarrow> (r # rs, e)))
      else ([], None))"
  by pat_completeness auto
termination
  by (relation "measure (\<lambda>(code, baseAddress, i). length code - i)")
     (auto simp: disassemble_step_def Let_def split: option.splits if_splits)

declare disassemble_loop.simps [simp del]

function disassemble32_loop :: "byte list \<Rightarrow> nat \<Rightarrow> decoded list \<times> error option" where
  "disassemble32_loop code i =
     (if i < length code then
        (case disassemble32_step code i of
           Stop e \<Rightarrow> ([], e)
         | Emit r j \<Rightarrow>
             (case disassemble32_loop code j of (rs, e) \<Rightarrow> (r # rs, e)))
      else ([], None))"
  by pat_completeness auto
termination
  by (relation "measure (\<lambda>(code, i). length code - i)")
     (auto simp: disassemble32_step_def Let_def split: option.splits if_splits)

declare disassemble32_loop.simps [simp del]

definition disassemble :: "byte list \<Rightarrow> 64 word \<Rightarrow> decoded list \<times> error option" where
  "disassemble code baseAddress = disassemble_loop code baseAddress 0"

definition disassemble32 :: "byte list \<Rightarrow> decoded list \<times> error option" where
  "disassemble32 code = disassemble32_loop code 0"

subsection \<open>The decoders with the memory behind the buffer\<close>

text \<open>
  \<open>operator[]\<close> does not check its index: a read at or past the end of the vector
  yields the byte that memory holds there. The same two loop bodies and loops follow,
  with the bytes \<open>behind\<close> that lie in memory after the buffer given: reads index into
  \<open>code @ behind\<close>, while the guard and the loop condition use \<open>code.size()\<close> as
  before. With no byte given behind the buffer these are the decoders above.
\<close>

definition disassemble_step_mem :: "byte list \<Rightarrow> byte list \<Rightarrow> 64 word \<Rightarrow> nat \<Rightarrow> step" where
  "disassemble_step_mem code behind baseAddress i =
     (case vec_at (code @ behind) i of
        None \<Rightarrow> Stop (Some OutOfBoundsRead)
      | Some opcode \<Rightarrow>
          if 0xB8 \<le> opcode \<and> opcode \<le> 0xBF then
            if i + 4 > length code then Stop (Some TruncatedOperand)
            else
              (case read32 (code @ behind) (i + 1) of
                 None \<Rightarrow> Stop (Some OutOfBoundsRead)
               | Some imm \<Rightarrow>
                   let reg = unat opcode - 0xB8 in
                   Emit \<lparr>address = baseAddress + of_nat i, mnemonic = ''mov'',
                         operand = RegImm (reg_names ! reg) imm, byteWidth = 5\<rparr> (i + 5))
          else if opcode = 0x90 then
            Emit \<lparr>address = baseAddress + of_nat i, mnemonic = ''nop'',
                  operand = NoOperand, byteWidth = 1\<rparr> (i + 1)
          else
            Emit \<lparr>address = baseAddress + of_nat i, mnemonic = ''db'',
                  operand = RawByte opcode, byteWidth = 1\<rparr> (i + 1))"

definition disassemble32_step_mem :: "byte list \<Rightarrow> byte list \<Rightarrow> nat \<Rightarrow> step" where
  "disassemble32_step_mem code behind i =
     (case vec_at (code @ behind) i of
        None \<Rightarrow> Stop (Some OutOfBoundsRead)
      | Some opcode \<Rightarrow>
          if 0xB8 \<le> opcode \<and> opcode \<le> 0xBF then
            if i + 4 > length code then Stop (Some TruncatedOperand)
            else
              (case read32 (code @ behind) (i + 1) of
                 None \<Rightarrow> Stop (Some OutOfBoundsRead)
               | Some imm \<Rightarrow>
                   let reg = unat opcode - 0xB8 in
                   Emit \<lparr>address = of_nat i, mnemonic = ''mov'',
                         operand = RegImm (reg_names32 ! reg) imm, byteWidth = 5\<rparr> (i + 5))
          else if opcode = 0xC3 then
            Emit \<lparr>address = of_nat i, mnemonic = ''ret'',
                  operand = NoOperand, byteWidth = 1\<rparr> (i + 1)
          else if opcode = 0x90 then
            Emit \<lparr>address = of_nat i, mnemonic = ''nop'',
                  operand = NoOperand, byteWidth = 1\<rparr> (i + 1)
          else
            Emit \<lparr>address = of_nat i, mnemonic = ''db'',
                  operand = RawByte opcode, byteWidth = 1\<rparr> (i + 1))"

function disassemble_loop_mem ::
  "byte list \<Rightarrow> byte list \<Rightarrow> 64 word \<Rightarrow> nat \<Rightarrow> decoded list \<times> error option" where
  "disassemble_loop_mem code behind baseAddress i =
     (if i < length code then
        (case disassemble_step_mem code behind baseAddress i of
           Stop e \<Rightarrow> ([], e)
         | Emit r j \<Rightarrow>
             (case disassemble_loop_mem code behind baseAddress j of (rs, e) \<Rightarrow> (r # rs, e)))
      else ([], None))"
  by pat_completeness auto
termination
  by (relation "measure (\<lambda>(code, behind, baseAddress, i). length code - i)")
     (auto simp: disassemble_step_mem_def Let_def split: option.splits if_splits)

declare disassemble_loop_mem.simps [simp del]

function disassemble32_loop_mem ::
  "byte list \<Rightarrow> byte list \<Rightarrow> nat \<Rightarrow> decoded list \<times> error option" where
  "disassemble32_loop_mem code behind i =
     (if i < length code then
        (case disassemble32_step_mem code behind i of
           Stop e \<Rightarrow> ([], e)
         | Emit r j \<Rightarrow>
             (case disassemble32_loop_mem code behind j of (rs, e) \<Rightarrow> (r # rs, e)))
      else ([], None))"
  by pat_completeness auto
termination
  by (relation "measure (\<lambda>(code, behind, i). length code - i)")
     (auto simp: disassemble32_step_mem_def Let_def split: option.splits if_splits)

declare disassemble32_loop_mem.simps [simp del]

definition disassemble_mem ::
  "byte list \<Rightarrow> byte list \<Rightarrow> 64 word \<Rightarrow> decoded list \<times> error option" where
  "disassemble_mem code behind baseAddress = disassemble_loop_mem code behind baseAddress 0"

definition disassemble32_mem :: "byte list \<Rightarrow> byte list \<Rightarrow> decoded list \<times> error option" where
  "disassemble32_mem code behind = disassemble32_loop_mem code behind 0"

section \<open>Container header\<close>

text \<open>
  The three structures are declared packed, so each field sits at the sum of the sizes
  of the fields before it, and the host reads multi-byte fields little-endian. A field
  read through a \<open>reinterpret_cast\<close> pointer into the image is a read of its bytes from
  the image: \<open>bytes_at\<close> is the only access, defined when the whole range lies inside.
  The image is the content of a \<open>std::vector\<close>, whose size is a \<open>size_t\<close>: a list of
  \<open>2 ^ 64\<close> bytes or more is no image, and nothing is read from it.
\<close>

definition bytes_at :: "byte list \<Rightarrow> nat \<Rightarrow> nat \<Rightarrow> byte list option" where
  "bytes_at data off n =
     (if length data < 2 ^ 64 \<and> off + n \<le> length data then Some (take n (drop off data))
      else None)"

fun le_word :: "byte list \<Rightarrow> 'a::len word" where
  "le_word [] = 0"
| "le_word (b # bs) = ucast b OR push_bit 8 (le_word bs)"

definition field16 :: "byte list \<Rightarrow> nat \<Rightarrow> 16 word option" where
  "field16 data off = map_option le_word (bytes_at data off 2)"

definition field32 :: "byte list \<Rightarrow> nat \<Rightarrow> 32 word option" where
  "field32 data off = map_option le_word (bytes_at data off 4)"

definition field64 :: "byte list \<Rightarrow> nat \<Rightarrow> 64 word option" where
  "field64 data off = map_option le_word (bytes_at data off 8)"

record Elf32_Ehdr =
  e_ident :: "byte list"
  e_type :: "16 word"
  e_machine :: "16 word"
  e_version :: "32 word"
  e_entry :: "32 word"
  e_phoff :: "32 word"
  e_shoff :: "32 word"
  e_flags :: "32 word"
  e_ehsize :: "16 word"
  e_phentsize :: "16 word"
  e_phnum :: "16 word"
  e_shentsize :: "16 word"
  e_shnum :: "16 word"
  e_shstrndx :: "16 word"

record Elf64_Ehdr =
  e_ident :: "byte list"
  e_type :: "16 word"
  e_machine :: "16 word"
  e_version :: "32 word"
  e_entry :: "64 word"
  e_phoff :: "64 word"
  e_shoff :: "64 word"
  e_flags :: "32 word"
  e_ehsize :: "16 word"
  e_phentsize :: "16 word"
  e_phnum :: "16 word"
  e_shentsize :: "16 word"
  e_shnum :: "16 word"
  e_shstrndx :: "16 word"

record Elf64_Shdr =
  sh_name :: "32 word"
  sh_type :: "32 word"
  sh_flags :: "64 word"
  sh_addr :: "64 word"
  sh_offset :: "64 word"
  sh_size :: "64 word"
  sh_link :: "32 word"
  sh_info :: "32 word"
  sh_addralign :: "64 word"
  sh_entsize :: "64 word"

definition sizeof_Elf32_Ehdr :: nat where "sizeof_Elf32_Ehdr = 52"
definition sizeof_Elf64_Ehdr :: nat where "sizeof_Elf64_Ehdr = 64"
definition sizeof_Elf64_Shdr :: nat where "sizeof_Elf64_Shdr = 64"

definition EI_MAG0 :: nat where "EI_MAG0 = 0"
definition EI_MAG1 :: nat where "EI_MAG1 = 1"
definition EI_MAG2 :: nat where "EI_MAG2 = 2"
definition EI_MAG3 :: nat where "EI_MAG3 = 3"
definition EI_CLASS :: nat where "EI_CLASS = 4"

definition ELFMAG0 :: byte where "ELFMAG0 = 0x7f"
definition ELFMAG1 :: byte where "ELFMAG1 = 0x45"
definition ELFMAG2 :: byte where "ELFMAG2 = 0x4C"
definition ELFMAG3 :: byte where "ELFMAG3 = 0x46"

text \<open>
  The structures seen through a pointer into the image: a header at the start of the
  image, a section entry at offset \<open>off\<close>.
\<close>

definition overlay_Elf32_Ehdr :: "byte list \<Rightarrow> Elf32_Ehdr option" where
  "overlay_Elf32_Ehdr data =
     (case bytes_at data 0 sizeof_Elf32_Ehdr of
        None \<Rightarrow> None
      | Some h \<Rightarrow>
          Some \<lparr>Elf32_Ehdr.e_ident = take 16 h,
                e_type = le_word (take 2 (drop 16 h)),
                e_machine = le_word (take 2 (drop 18 h)),
                e_version = le_word (take 4 (drop 20 h)),
                e_entry = le_word (take 4 (drop 24 h)),
                e_phoff = le_word (take 4 (drop 28 h)),
                e_shoff = le_word (take 4 (drop 32 h)),
                e_flags = le_word (take 4 (drop 36 h)),
                e_ehsize = le_word (take 2 (drop 40 h)),
                e_phentsize = le_word (take 2 (drop 42 h)),
                e_phnum = le_word (take 2 (drop 44 h)),
                e_shentsize = le_word (take 2 (drop 46 h)),
                e_shnum = le_word (take 2 (drop 48 h)),
                e_shstrndx = le_word (take 2 (drop 50 h))\<rparr>)"

definition overlay_Elf64_Ehdr :: "byte list \<Rightarrow> Elf64_Ehdr option" where
  "overlay_Elf64_Ehdr data =
     (case bytes_at data 0 sizeof_Elf64_Ehdr of
        None \<Rightarrow> None
      | Some h \<Rightarrow>
          Some \<lparr>Elf64_Ehdr.e_ident = take 16 h,
                e_type = le_word (take 2 (drop 16 h)),
                e_machine = le_word (take 2 (drop 18 h)),
                e_version = le_word (take 4 (drop 20 h)),
                e_entry = le_word (take 8 (drop 24 h)),
                e_phoff = le_word (take 8 (drop 32 h)),
                e_shoff = le_word (take 8 (drop 40 h)),
                e_flags = le_word (take 4 (drop 48 h)),
                e_ehsize = le_word (take 2 (drop 52 h)),
                e_phentsize = le_word (take 2 (drop 54 h)),
                e_phnum = le_word (take 2 (drop 56 h)),
                e_shentsize = le_word (take 2 (drop 58 h)),
                e_shnum = le_word (take 2 (drop 60 h)),
                e_shstrndx = le_word (take 2 (drop 62 h))\<rparr>)"

definition overlay_Elf64_Shdr :: "byte list \<Rightarrow> nat \<Rightarrow> Elf64_Shdr option" where
  "overlay_Elf64_Shdr data off =
     (case bytes_at data off sizeof_Elf64_Shdr of
        None \<Rightarrow> None
      | Some h \<Rightarrow>
          Some \<lparr>sh_name = le_word (take 4 h),
                sh_type = le_word (take 4 (drop 4 h)),
                sh_flags = le_word (take 8 (drop 8 h)),
                sh_addr = le_word (take 8 (drop 16 h)),
                sh_offset = le_word (take 8 (drop 24 h)),
                sh_size = le_word (take 8 (drop 32 h)),
                sh_link = le_word (take 4 (drop 40 h)),
                sh_info = le_word (take 4 (drop 44 h)),
                sh_addralign = le_word (take 8 (drop 48 h)),
                sh_entsize = le_word (take 8 (drop 56 h))\<rparr>)"

definition isELF :: "byte list \<Rightarrow> bool" where
  "isELF data =
     (if length data < 4 then False
      else vec_at data EI_MAG0 = Some ELFMAG0 \<and>
           vec_at data EI_MAG1 = Some ELFMAG1 \<and>
           vec_at data EI_MAG2 = Some ELFMAG2 \<and>
           vec_at data EI_MAG3 = Some ELFMAG3)"

text \<open>
  \<open>printELFHeader\<close> writes the header's fields, or one diagnostic line. Its result here
  is the header it prints from; the formatting of the lines is the reporter's.
\<close>

datatype header_report = ELF32 Elf32_Ehdr | ELF64 Elf64_Ehdr

definition printELFHeader :: "byte list \<Rightarrow> error + header_report" where
  "printELFHeader data =
     (if \<not> isELF data then Inl NotRecognizedFormat
      else
        (case vec_at data EI_CLASS of
           None \<Rightarrow> Inl OutOfBoundsRead
         | Some elfClass \<Rightarrow>
             if elfClass = 1 then
               if length data < sizeof_Elf32_Ehdr then Inl TooShort
               else (case overlay_Elf32_Ehdr data of
                       None \<Rightarrow> Inl OutOfBoundsRead
                     | Some hdr \<Rightarrow> Inr (ELF32 hdr))
             else if elfClass = 2 then
               if length data < sizeof_Elf64_Ehdr then Inl TooShort
               else (case overlay_Elf64_Ehdr data of
                       None \<Rightarrow> Inl OutOfBoundsRead
                     | Some hdr \<Rightarrow> Inr (ELF64 hdr))
             else Inl UnknownClass))"

section \<open>Section locator\<close>

text \<open>
  \<open>std::strcmp(p, lit) == 0\<close> for a pointer \<open>p\<close> at offset \<open>pos\<close> of the image and a
  literal with the bytes \<open>lit\<close> followed by its terminator: bytes are compared in turn
  until they differ or both strings end. Each byte of the image it looks at is a read.
\<close>

fun strcmp_eq :: "byte list \<Rightarrow> nat \<Rightarrow> byte list \<Rightarrow> bool option" where
  "strcmp_eq data pos [] =
     (case vec_at data pos of None \<Rightarrow> None | Some d \<Rightarrow> Some (d = 0))"
| "strcmp_eq data pos (c # cs) =
     (case vec_at data pos of
        None \<Rightarrow> None
      | Some d \<Rightarrow>
          if d \<noteq> c then Some False
          else if c = 0 then Some True
          else strcmp_eq data (pos + 1) cs)"

text \<open>The literal \<open>".text"\<close>.\<close>

definition dot_text :: "byte list" where
  "dot_text = [0x2E, 0x74, 0x65, 0x78, 0x74]"

text \<open>
  The \<open>for\<close> loop of \<open>findTextSection\<close>. \<open>sectionHeaders\<close> and \<open>sectionStringTable\<close> are
  the two pointers, as 64-bit offsets into the image. The pointer to entry \<open>i\<close> is
  \<open>sectionHeaders\<close> plus \<open>i * sizeof(Elf64_Shdr)\<close>, the pointer to a field is the pointer
  to the entry plus the field's offset, and the pointer to the name is
  \<open>sectionStringTable\<close> plus \<open>sh_name\<close>: each sum wraps modulo \<open>2 ^ 64\<close>. Of the entry, the
  loop reads \<open>sh_name\<close> (offset 0) and, on a match, \<open>sh_offset\<close> (offset 24) and
  \<open>sh_size\<close> (offset 32). \<open>strcmp\<close> walks upwards from the pointer to the name.
\<close>

function findTextSection_loop ::
  "byte list \<Rightarrow> 64 word \<Rightarrow> 64 word \<Rightarrow> nat \<Rightarrow> nat \<Rightarrow> error + (64 word \<times> 64 word)" where
  "findTextSection_loop fileData sectionHeaders sectionStringTable sectionCount i =
     (if i < sectionCount then
        (case field32 fileData (unat (sectionHeaders + of_nat (sizeof_Elf64_Shdr * i))) of
           None \<Rightarrow> Inl OutOfBoundsRead
         | Some name \<Rightarrow>
             (case strcmp_eq fileData (unat (sectionStringTable + ucast name)) dot_text of
                None \<Rightarrow> Inl OutOfBoundsRead
              | Some True \<Rightarrow>
                  (case field64 fileData
                          (unat (sectionHeaders + of_nat (sizeof_Elf64_Shdr * i) + 24)) of
                     None \<Rightarrow> Inl OutOfBoundsRead
                   | Some textSectionOffset \<Rightarrow>
                       (case field64 fileData
                               (unat (sectionHeaders + of_nat (sizeof_Elf64_Shdr * i) + 32)) of
                          None \<Rightarrow> Inl OutOfBoundsRead
                        | Some textSectionSize \<Rightarrow> Inr (textSectionOffset, textSectionSize)))
              | Some False \<Rightarrow>
                  findTextSection_loop fileData sectionHeaders sectionStringTable
                    sectionCount (i + 1)))
      else Inl SectionNotFound)"
  by pat_completeness auto
termination
  by (relation "measure (\<lambda>(fileData, sectionHeaders, sectionStringTable, sectionCount, i).
        sectionCount - i)") auto

declare findTextSection_loop.simps [simp del]

text \<open>
  \<open>findTextSection\<close>. The header is the structure the caller's pointer refers to. The
  string table's header is copied whole (64 bytes read) from the pointer
  \<open>sectionHeaders\<close> plus \<open>e_shstrndx * sizeof(Elf64_Shdr)\<close>; the header's \<open>e_shentsize\<close>
  is read into a local that is never used, and the entries are stepped by
  \<open>sizeof(Elf64_Shdr)\<close>. The two results are the source's output parameters.
\<close>

definition findTextSection :: "byte list \<Rightarrow> Elf64_Ehdr \<Rightarrow> error + (64 word \<times> 64 word)" where
  "findTextSection fileData elfHeader =
     (if e_shoff elfHeader = 0 \<or> e_shnum elfHeader = 0 then Inl NoSectionTable
      else
        let sectionHeaderOffset = e_shoff elfHeader;
            sectionCount = e_shnum elfHeader;
            sectionStringTableIndex = e_shstrndx elfHeader
        in
          if sectionStringTableIndex \<ge> sectionCount then Inl InvalidStringTableIndex
          else
            (case overlay_Elf64_Shdr fileData
                    (unat (sectionHeaderOffset
                       + of_nat (sizeof_Elf64_Shdr * unat sectionStringTableIndex))) of
               None \<Rightarrow> Inl OutOfBoundsRead
             | Some sectionStringTableHeader \<Rightarrow>
                 findTextSection_loop fileData sectionHeaderOffset
                   (sh_offset sectionStringTableHeader) (unat sectionCount) 0))"

text \<open>
  The test of the loop body at entry \<open>i\<close>, on its own: the read of \<open>sh_name\<close> and the
  comparison of the name it points to with \<open>".text"\<close>.
\<close>

definition entry_is_text :: "byte list \<Rightarrow> 64 word \<Rightarrow> 64 word \<Rightarrow> nat \<Rightarrow> bool option" where
  "entry_is_text fileData sectionHeaders sectionStringTable i =
     (case field32 fileData (unat (sectionHeaders + of_nat (sizeof_Elf64_Shdr * i))) of
        None \<Rightarrow> None
      | Some name \<Rightarrow> strcmp_eq fileData (unat (sectionStringTable + ucast name)) dot_text)"

section \<open>Pipeline\<close>

text \<open>
  The call of \<open>findTextSection\<close> in \<open>main\<close>. Its header pointer is the start of the image,
  whatever \<open>printELFHeader\<close> printed, and the function reads the fields through the
  pointer as it comes to them: \<open>e_shoff\<close> (bytes 40 to 47) first; \<open>e_shnum\<close> (bytes 60
  and 61) if \<open>e_shoff\<close> is not 0; and, if the table is not reported absent,
  \<open>e_shentsize\<close> and \<open>e_shstrndx\<close>, which end at byte 63.
\<close>

definition findTextSection_of_image :: "byte list \<Rightarrow> error + (64 word \<times> 64 word)" where
  "findTextSection_of_image code =
     (case field64 code 40 of
        None \<Rightarrow> Inl OutOfBoundsRead
      | Some shoff \<Rightarrow>
          if shoff = 0 then Inl NoSectionTable
          else
            (case field16 code 60 of
               None \<Rightarrow> Inl OutOfBoundsRead
             | Some shnum \<Rightarrow>
                 if shnum = 0 then Inl NoSectionTable
                 else
                   (case overlay_Elf64_Ehdr code of
                      None \<Rightarrow> Inl OutOfBoundsRead
                    | Some elfHeader \<Rightarrow> findTextSection code elfHeader)))"

text \<open>
  \<open>main\<close>, from the loaded file on. The result of \<open>printELFHeader\<close> does not steer the
  rest. The bounds check adds two \<open>uint64_t\<close> values, so the sum wraps. The range
  constructor of the vector measures its range by the difference of the two iterators,
  which is \<open>textSize\<close> as a signed 64-bit value: if that is negative it throws
  \<open>std::length_error\<close>; otherwise it copies \<open>textSize\<close> bytes from \<open>textSectionOffset\<close> on
  (the allocation is taken to succeed), and the bytes copied have to lie inside the
  image. The first component of the result is what \<open>printELFHeader\<close> reported, the second
  the outcome of the rest: an error, or the listing and how the decode ended.
\<close>

definition main :: "byte list \<Rightarrow> (error + header_report) \<times> (error + decoded list \<times> error option)" where
  "main code =
     (printELFHeader code,
      (case findTextSection_of_image code of
         Inl e \<Rightarrow> Inl e
       | Inr (textSectionOffset, textSize) \<Rightarrow>
           if unat (textSectionOffset + textSize) > length code then Inl RegionExceedsImage
           else if sint textSize < 0 then Inl LengthError
           else
             (case bytes_at code (unat textSectionOffset) (unat textSize) of
                None \<Rightarrow> Inl OutOfBoundsRead
              | Some textSection \<Rightarrow> Inr (disassemble textSection 0))))"

section \<open>Section names as the specification reads them\<close>

text \<open>
  The specification's wording, for comparison with the locator: a name is the
  zero-terminated run of bytes that starts at a position of the image. It exists when a
  zero byte follows at or after the position, inside the image.
\<close>

definition c_string_at :: "byte list \<Rightarrow> nat \<Rightarrow> byte list option" where
  "c_string_at data pos =
     (if 0 \<in> set (drop pos data) then Some (takeWhile (\<lambda>b. b \<noteq> 0) (drop pos data)) else None)"

text \<open>
  The resolved name of entry \<open>i\<close>: the run that starts at the string-table section's
  file offset plus the entry's name offset.
\<close>

definition section_name :: "byte list \<Rightarrow> Elf64_Ehdr \<Rightarrow> nat \<Rightarrow> byte list option" where
  "section_name data header i =
     (case overlay_Elf64_Shdr data
             (unat (e_shoff header) + sizeof_Elf64_Shdr * unat (e_shstrndx header)) of
        None \<Rightarrow> None
      | Some stringTable \<Rightarrow>
          (case field32 data (unat (e_shoff header) + sizeof_Elf64_Shdr * i) of
             None \<Rightarrow> None
           | Some nameOffset \<Rightarrow> c_string_at data (unat (sh_offset stringTable) + unat nameOffset)))"

section \<open>Example images\<close>

text \<open>
  A 64-bit header that places a table of three section entries at offset 64, with the
  string table at index 0; and the same header as a structure.
\<close>

definition elf64_header_bytes :: "byte list" where
  "elf64_header_bytes =
     [0x7F, 0x45, 0x4C, 0x46, 2, 1, 1, 0, 0, 0, 0, 0, 0, 0, 0, 0]
     @ [2, 0] @ [0x3E, 0] @ [1, 0, 0, 0]
     @ [0, 0, 0, 0, 0, 0, 0, 0] @ [0, 0, 0, 0, 0, 0, 0, 0] @ [64, 0, 0, 0, 0, 0, 0, 0]
     @ [0, 0, 0, 0] @ [64, 0] @ [0, 0] @ [0, 0] @ [64, 0] @ [3, 0] @ [0, 0]"

definition example_header :: Elf64_Ehdr where
  "example_header =
     \<lparr>Elf64_Ehdr.e_ident = [0x7F, 0x45, 0x4C, 0x46, 2, 1, 1, 0, 0, 0, 0, 0, 0, 0, 0, 0],
      e_type = 2, e_machine = 0x3E, e_version = 1, e_entry = 0, e_phoff = 0, e_shoff = 64,
      e_flags = 0, e_ehsize = 64, e_phentsize = 0, e_phnum = 0, e_shentsize = 64,
      e_shnum = 3, e_shstrndx = 0\<rparr>"

text \<open>
  The 64 bytes of a section entry with the given \<open>sh_name\<close> (4 bytes), \<open>sh_offset\<close> and
  \<open>sh_size\<close> (8 bytes each); type 1, every other field zero.
\<close>

definition section_entry_bytes :: "byte list \<Rightarrow> byte list \<Rightarrow> byte list \<Rightarrow> byte list" where
  "section_entry_bytes name off sz =
     name @ [1, 0, 0, 0] @ replicate 8 0 @ replicate 8 0 @ off @ sz
     @ [0, 0, 0, 0] @ [0, 0, 0, 0] @ replicate 8 0 @ replicate 8 0"

text \<open>The name pool: the empty name at offset 0, \<open>.text\<close> at offset 1.\<close>

definition name_pool_bytes :: "byte list" where
  "name_pool_bytes = [0, 0x2E, 0x74, 0x65, 0x78, 0x74, 0]"

text \<open>
  Header, three entries (offsets 64, 128, 192), the name pool at offset 256 and two code
  bytes at offsets 263 and 264. Entry 0 is the string table (offset 256, size 7).
  Entries 1 and 2 both carry the name offset 1, so both are named \<open>.text\<close>; entry 1
  covers the byte at 263, entry 2 the byte at 264.
\<close>

definition two_text_image :: "byte list" where
  "two_text_image =
     elf64_header_bytes
     @ section_entry_bytes [0, 0, 0, 0] [0, 1, 0, 0, 0, 0, 0, 0] [7, 0, 0, 0, 0, 0, 0, 0]
     @ section_entry_bytes [1, 0, 0, 0] [7, 1, 0, 0, 0, 0, 0, 0] [1, 0, 0, 0, 0, 0, 0, 0]
     @ section_entry_bytes [1, 0, 0, 0] [8, 1, 0, 0, 0, 0, 0, 0] [1, 0, 0, 0, 0, 0, 0, 0]
     @ name_pool_bytes @ [0x90, 0xC3]"

text \<open>
  The same layout, but the string table declares a size of 1: its extent is the single
  zero byte at offset 256. Entry 1 has the name offset 1, which is past that extent;
  entry 2 has the name offset 0.
\<close>

definition stray_name_image :: "byte list" where
  "stray_name_image =
     elf64_header_bytes
     @ section_entry_bytes [0, 0, 0, 0] [0, 1, 0, 0, 0, 0, 0, 0] [1, 0, 0, 0, 0, 0, 0, 0]
     @ section_entry_bytes [1, 0, 0, 0] [7, 1, 0, 0, 0, 0, 0, 0] [1, 0, 0, 0, 0, 0, 0, 0]
     @ section_entry_bytes [0, 0, 0, 0] [8, 1, 0, 0, 0, 0, 0, 0] [1, 0, 0, 0, 0, 0, 0, 0]
     @ name_pool_bytes @ [0x90, 0xC3]"

text \<open>
  The same layout, but entry 1, named \<open>.text\<close>, declares the file offset
  \<open>0xFFFFFFFFFFFFFFFF\<close> and the size 2.
\<close>

definition overflow_image :: "byte list" where
  "overflow_image =
     elf64_header_bytes
     @ section_entry_bytes [0, 0, 0, 0] [0, 1, 0, 0, 0, 0, 0, 0] [7, 0, 0, 0, 0, 0, 0, 0]
     @ section_entry_bytes [1, 0, 0, 0] [0xFF, 0xFF, 0xFF, 0xFF, 0xFF, 0xFF, 0xFF, 0xFF]
         [2, 0, 0, 0, 0, 0, 0, 0]
     @ section_entry_bytes [0, 0, 0, 0] [8, 1, 0, 0, 0, 0, 0, 0] [1, 0, 0, 0, 0, 0, 0, 0]
     @ name_pool_bytes @ [0x90, 0xC3]"


section \<open>Properties of the instruction decoder\<close>

text \<open>The value \<open>read32\<close> assembles is the little-endian number of its four bytes.\<close>

lemma le32_value:
  fixes b0 b1 b2 b3 :: byte
  shows "unat ((ucast b0 :: 32 word) OR push_bit 8 (ucast b1) OR push_bit 16 (ucast b2)
              OR push_bit 24 (ucast b3))
         = unat b0 + 256 * unat b1 + 65536 * unat b2 + 16777216 * unat b3"
proof -
  let ?a = "ucast b0 :: 32 word" and ?b = "push_bit 8 (ucast b1) :: 32 word"
  and ?c = "push_bit 16 (ucast b2) :: 32 word" and ?d = "push_bit 24 (ucast b3) :: 32 word"
  have cd: "?c + ?d = ?c OR ?d"
    by (rule disjunctive_add_eq_or, rule bit_eqI) (auto simp: bit_simps dest: bit_imp_le_length)
  have bcd: "?b + (?c OR ?d) = ?b OR (?c OR ?d)"
    by (rule disjunctive_add_eq_or, rule bit_eqI) (auto simp: bit_simps dest: bit_imp_le_length)
  have abcd: "?a + (?b OR (?c OR ?d)) = ?a OR (?b OR (?c OR ?d))"
    by (rule disjunctive_add_eq_or, rule bit_eqI) (auto simp: bit_simps dest: bit_imp_le_length)
  have eq: "?a OR ?b OR ?c OR ?d = ?a + (?b + (?c + ?d))"
    by (simp only: cd bcd abcd or.assoc)
  have up: "unat (ucast b :: 32 word) = unat b" for b :: byte
  proof -
    have "unat b < 2 ^ 32" using unsigned_less [of b, where ?'a = nat] by simp
    then show ?thesis by (simp add: unsigned_ucast_eq take_bit_nat_eq_self)
  qed
  have ua: "unat ?a = unat b0" by (rule up)
  have ub: "unat ?b = 256 * unat b1"
    using unsigned_less [of b1, where ?'a = nat] by (simp add: push_bit_eq_mult unat_word_ariths up)
  have uc: "unat ?c = 65536 * unat b2"
    using unsigned_less [of b2, where ?'a = nat] by (simp add: push_bit_eq_mult unat_word_ariths up)
  have ud: "unat ?d = 16777216 * unat b3"
    using unsigned_less [of b3, where ?'a = nat] by (simp add: push_bit_eq_mult unat_word_ariths up)
  have "unat (?a + (?b + (?c + ?d))) = unat b0 + 256 * unat b1 + 65536 * unat b2 + 16777216 * unat b3"
    using unsigned_less [of b0, where ?'a = nat] unsigned_less [of b1, where ?'a = nat] unsigned_less [of b2, where ?'a = nat] unsigned_less [of b3, where ?'a = nat]
    by (simp add: unat_word_ariths ua ub uc ud)
  then show ?thesis
    by (simp only: eq)
qed

lemma read32_Some_bound: "read32 code k = Some w \<Longrightarrow> k + 3 < length code"
  by (auto simp: read32_def vec_at_def split: option.splits if_splits)

lemma read32_in_bounds:
  "k + 3 < length code \<Longrightarrow>
   read32 code k = Some (ucast (code ! k) OR push_bit 8 (ucast (code ! (k + 1)))
      OR push_bit 16 (ucast (code ! (k + 2))) OR push_bit 24 (ucast (code ! (k + 3))))"
  by (simp add: read32_def vec_at_def)

lemma disassemble_step_Emit:
  assumes "disassemble_step code baseAddress i = Emit r j"
  shows "i < length code" and "j = i + 1 \<or> j = i + 5" and "j \<le> length code"
    and "byteWidth r = j - i" and "address r = baseAddress + of_nat i"
  using assms
  by (auto simp: disassemble_step_def vec_at_def Let_def
           split: option.splits if_splits dest: read32_Some_bound)

lemma disassemble32_step_Emit:
  assumes "disassemble32_step code i = Emit r j"
  shows "i < length code" and "j = i + 1 \<or> j = i + 5" and "j \<le> length code"
    and "byteWidth r = j - i" and "address r = of_nat i"
  using assms
  by (auto simp: disassemble32_step_def vec_at_def Let_def
           split: option.splits if_splits dest: read32_Some_bound)

lemma disassemble_step_Stop:
  "i < length code \<Longrightarrow> disassemble_step code baseAddress i = Stop e \<Longrightarrow>
   e = Some TruncatedOperand \<or> e = Some OutOfBoundsRead"
  by (auto simp: disassemble_step_def vec_at_def Let_def split: option.splits if_splits)

lemma disassemble32_step_Stop:
  "i < length code \<Longrightarrow> disassemble32_step code i = Stop e \<Longrightarrow>
   e = Some TruncatedOperand \<or> e = Some OutOfBoundsRead"
  by (auto simp: disassemble32_step_def vec_at_def Let_def split: option.splits if_splits)

lemma disassemble_loop_end:
  "length code \<le> i \<Longrightarrow> disassemble_loop code baseAddress i = ([], None)"
  by (simp add: disassemble_loop.simps [of code baseAddress i])

lemma disassemble_loop_Stop:
  "i < length code \<Longrightarrow> disassemble_step code baseAddress i = Stop e \<Longrightarrow>
   disassemble_loop code baseAddress i = ([], e)"
  by (simp add: disassemble_loop.simps [of code baseAddress i])

lemma disassemble_loop_Emit:
  "disassemble_step code baseAddress i = Emit r j \<Longrightarrow>
   disassemble_loop code baseAddress i =
     (r # fst (disassemble_loop code baseAddress j), snd (disassemble_loop code baseAddress j))"
  using disassemble_step_Emit(1) [of code baseAddress i r j]
  by (simp add: disassemble_loop.simps [of code baseAddress i] split: prod.splits)

lemma disassemble_loop_count:
  "length (fst (disassemble_loop code baseAddress i)) \<le> length code - i"
proof (induction code baseAddress i rule: disassemble_loop.induct)
  case (1 code baseAddress i)
  show ?case
  proof (cases "i < length code")
    case False
    then show ?thesis by (simp add: disassemble_loop_end)
  next
    case True
    show ?thesis
    proof (cases "disassemble_step code baseAddress i")
      case (Stop e)
      with True show ?thesis by (simp add: disassemble_loop_Stop)
    next
      case (Emit r j)
      from disassemble_step_Emit [OF Emit] have "i < j" "j \<le> length code" by auto
      moreover from "1.IH" [OF True Emit]
      have "length (fst (disassemble_loop code baseAddress j)) \<le> length code - j" .
      ultimately show ?thesis
        by (simp add: disassemble_loop_Emit [OF Emit])
    qed
  qed
qed

lemma disassemble_loop_tiles:
  "disassemble_loop code baseAddress i = (rs, None) \<Longrightarrow> i \<le> length code \<Longrightarrow>
   i + sum_list (map byteWidth rs) = length code \<and>
   (\<forall>k<length rs. address (rs ! k) = baseAddress + of_nat (i + sum_list (map byteWidth (take k rs)))
       \<and> (byteWidth (rs ! k) = 1 \<or> byteWidth (rs ! k) = 5))"
proof (induction code baseAddress i arbitrary: rs rule: disassemble_loop.induct)
  case (1 code baseAddress i)
  show ?case
  proof (cases "i < length code")
    case False
    with "1.prems" show ?thesis by (simp add: disassemble_loop_end)
  next
    case True
    show ?thesis
    proof (cases "disassemble_step code baseAddress i")
      case (Stop e)
      with True "1.prems" disassemble_step_Stop [OF True Stop] show ?thesis
        by (auto simp: disassemble_loop_Stop)
    next
      case (Emit r j)
      obtain rs' e' where rest: "disassemble_loop code baseAddress j = (rs', e')"
        by (cases "disassemble_loop code baseAddress j")
      with "1.prems" have rs: "rs = r # rs'" and e': "e' = None"
        by (simp_all add: disassemble_loop_Emit [OF Emit])
      note st = disassemble_step_Emit [OF Emit]
      from "1.IH" [OF True Emit] rest e' st(3)
      have IH: "j + sum_list (map byteWidth rs') = length code"
        "\<And>k. k < length rs' \<Longrightarrow>
          address (rs' ! k) = baseAddress + of_nat (j + sum_list (map byteWidth (take k rs')))
          \<and> (byteWidth (rs' ! k) = 1 \<or> byteWidth (rs' ! k) = 5)"
        by auto
      have w: "i + byteWidth r = j" using st by auto
      have "i + sum_list (map byteWidth rs) = length code"
        using IH(1) w rs by simp
      moreover have "address (rs ! k) = baseAddress + of_nat (i + sum_list (map byteWidth (take k rs)))
          \<and> (byteWidth (rs ! k) = 1 \<or> byteWidth (rs ! k) = 5)" if "k < length rs" for k
      proof (cases k)
        case 0
        then show ?thesis using rs st by auto
      next
        case (Suc k')
        with that rs have "k' < length rs'" by simp
        from IH(2) [OF this] show ?thesis
          using Suc rs w by (simp add: add.assoc [symmetric])
      qed
      ultimately show ?thesis by blast
    qed
  qed
qed

lemma disassemble32_loop_end:
  "length code \<le> i \<Longrightarrow> disassemble32_loop code i = ([], None)"
  by (simp add: disassemble32_loop.simps [of code i])

lemma disassemble32_loop_Stop:
  "i < length code \<Longrightarrow> disassemble32_step code i = Stop e \<Longrightarrow>
   disassemble32_loop code i = ([], e)"
  by (simp add: disassemble32_loop.simps [of code i])

lemma disassemble32_loop_Emit:
  "disassemble32_step code i = Emit r j \<Longrightarrow>
   disassemble32_loop code i =
     (r # fst (disassemble32_loop code j), snd (disassemble32_loop code j))"
  using disassemble32_step_Emit(1) [of code i r j]
  by (simp add: disassemble32_loop.simps [of code i] split: prod.splits)

lemma disassemble32_loop_count:
  "length (fst (disassemble32_loop code i)) \<le> length code - i"
proof (induction code i rule: disassemble32_loop.induct)
  case (1 code i)
  show ?case
  proof (cases "i < length code")
    case False
    then show ?thesis by (simp add: disassemble32_loop_end)
  next
    case True
    show ?thesis
    proof (cases "disassemble32_step code i")
      case (Stop e)
      with True show ?thesis by (simp add: disassemble32_loop_Stop)
    next
      case (Emit r j)
      from disassemble32_step_Emit [OF Emit] have "i < j" "j \<le> length code" by auto
      moreover from "1.IH" [OF True Emit]
      have "length (fst (disassemble32_loop code j)) \<le> length code - j" .
      ultimately show ?thesis
        by (simp add: disassemble32_loop_Emit [OF Emit])
    qed
  qed
qed

lemma disassemble32_loop_tiles:
  "disassemble32_loop code i = (rs, None) \<Longrightarrow> i \<le> length code \<Longrightarrow>
   i + sum_list (map byteWidth rs) = length code \<and>
   (\<forall>k<length rs. address (rs ! k) = of_nat (i + sum_list (map byteWidth (take k rs)))
       \<and> (byteWidth (rs ! k) = 1 \<or> byteWidth (rs ! k) = 5))"
proof (induction code i arbitrary: rs rule: disassemble32_loop.induct)
  case (1 code i)
  show ?case
  proof (cases "i < length code")
    case False
    with "1.prems" show ?thesis by (simp add: disassemble32_loop_end)
  next
    case True
    show ?thesis
    proof (cases "disassemble32_step code i")
      case (Stop e)
      with True "1.prems" disassemble32_step_Stop [OF True Stop] show ?thesis
        by (auto simp: disassemble32_loop_Stop)
    next
      case (Emit r j)
      obtain rs' e' where rest: "disassemble32_loop code j = (rs', e')"
        by (cases "disassemble32_loop code j")
      with "1.prems" have rs: "rs = r # rs'" and e': "e' = None"
        by (simp_all add: disassemble32_loop_Emit [OF Emit])
      note st = disassemble32_step_Emit [OF Emit]
      from "1.IH" [OF True Emit] rest e' st(3)
      have IH: "j + sum_list (map byteWidth rs') = length code"
        "\<And>k. k < length rs' \<Longrightarrow>
          address (rs' ! k) = of_nat (j + sum_list (map byteWidth (take k rs')))
          \<and> (byteWidth (rs' ! k) = 1 \<or> byteWidth (rs' ! k) = 5)"
        by auto
      have w: "i + byteWidth r = j" using st by auto
      have "i + sum_list (map byteWidth rs) = length code"
        using IH(1) w rs by simp
      moreover have "address (rs ! k) = of_nat (i + sum_list (map byteWidth (take k rs)))
          \<and> (byteWidth (rs ! k) = 1 \<or> byteWidth (rs ! k) = 5)" if "k < length rs" for k
      proof (cases k)
        case 0
        then show ?thesis using rs st by auto
      next
        case (Suc k')
        with that rs have "k' < length rs'" by simp
        from IH(2) [OF this] show ?thesis
          using Suc rs w by (simp add: add.assoc [symmetric])
      qed
      ultimately show ?thesis by blast
    qed
  qed
qed

lemmas decoder_eval =
  disassemble_def disassemble32_def disassemble_loop.simps disassemble32_loop.simps
  disassemble_step_def disassemble32_step_def vec_at_def read32_def reg_names_def reg_names32_def

lemma disassemble_step_truncated_iff:
  "disassemble_step code baseAddress i = Stop (Some TruncatedOperand) \<longleftrightarrow>
   i < length code \<and> 0xB8 \<le> code ! i \<and> code ! i \<le> 0xBF \<and> length code < i + 4"
  by (auto simp: disassemble_step_def vec_at_def read32_def Let_def split: option.splits if_splits)

lemma disassemble_step_out_of_bounds_iff:
  "i < length code \<Longrightarrow>
   disassemble_step code baseAddress i = Stop (Some OutOfBoundsRead) \<longleftrightarrow>
   0xB8 \<le> code ! i \<and> code ! i \<le> 0xBF \<and> length code = i + 4"
  by (auto simp: disassemble_step_def vec_at_def read32_def Let_def split: option.splits if_splits)

subsection \<open>The truncation guard\<close>

text \<open>
  Claim C1 (code defect). The claim: at an opcode in \<open>[0xB8, 0xBF]\<close> with fewer than four
  bytes after it, the decode stops with \<open>TruncatedOperand\<close> and emits no record for it.
  The guard of the source is \<open>i + 4 > code.size()\<close>. With no operand byte at all, as in
  \<open>[0xB8]\<close>, it fires in both decoders. With exactly three bytes after the opcode it does
  not: at cursor 1 of the five bytes below, the step reads past the end instead of
  reporting the truncation.
\<close>

theorem truncated_operand_three_bytes_left:
  "disassemble [0xB8] 0 = ([], Some TruncatedOperand) \<and>
   disassemble32 [0xB8] = ([], Some TruncatedOperand) \<and>
   disassemble_step [0x90, 0xBD, 0x11, 0x22, 0x33] 0 1 = Stop (Some OutOfBoundsRead) \<and>
   disassemble [0x90, 0xBD, 0x11, 0x22, 0x33] 0 =
     ([\<lparr>address = 0, mnemonic = ''nop'', operand = NoOperand, byteWidth = 1\<rparr>],
      Some OutOfBoundsRead) \<and>
   disassemble32 [0x90, 0xBD, 0x11, 0x22, 0x33] =
     ([\<lparr>address = 0, mnemonic = ''nop'', operand = NoOperand, byteWidth = 1\<rparr>],
      Some OutOfBoundsRead)"
  by (simp add: decoder_eval)

text \<open>
  Claim C3 (code defect). The claim: the length check before \<open>read32\<close> guarantees that
  all four indices it accesses are below the length. On the four bytes below the check
  at cursor 0 passes (\<open>0 + 4 > 4\<close> is false), and \<open>read32\<close> at index 1 accesses index
  \<open>1 + 3 = 4\<close>, which is the length: the access yields no value.
\<close>

theorem read32_reads_past_end:
  "length [0xB8, 0x01, 0x02, 0x03 :: byte] = 4 \<and>
   \<not> (0 + 4 > length [0xB8, 0x01, 0x02, 0x03 :: byte]) \<and>
   vec_at [0xB8, 0x01, 0x02, 0x03] (1 + 3) = None \<and>
   read32 [0xB8, 0x01, 0x02, 0x03] 1 = None \<and>
   disassemble [0xB8, 0x01, 0x02, 0x03] 0 = ([], Some OutOfBoundsRead) \<and>
   disassemble32 [0xB8, 0x01, 0x02, 0x03] = ([], Some OutOfBoundsRead)"
  by (simp add: decoder_eval)

subsection \<open>Load-immediate\<close>

text \<open>
  Claim C4. At a cursor whose byte \<open>b\<close> is in \<open>[0xB8, 0xBF]\<close> with at least four bytes
  after it, the step emits one record at the cursor's address with mnemonic \<open>mov\<close>, the
  register name at index \<open>b - 0xB8\<close> (below 8) of the table rax, rcx, rdx, rbx, rsp, rbp,
  rsi, rdi, and the immediate whose unsigned value is the little-endian number of the
  next four bytes (below \<open>2 ^ 32\<close>); the cursor moves on by 5, and the loop continues
  from there. The six bytes \<open>B8 01 00 00 00 90\<close> decode to exactly \<open>mov rax, 0x1\<close> at
  address 0 with width 5 and \<open>nop\<close> at address 5.
\<close>

theorem mov_imm32_decoded:
  assumes "i < length code" and "0xB8 \<le> code ! i" and "code ! i \<le> 0xBF"
    and "i + 5 \<le> length code"
  shows "disassemble_step code baseAddress i =
           Emit \<lparr>address = baseAddress + of_nat i, mnemonic = ''mov'',
                 operand = RegImm
                   ([''rax'', ''rcx'', ''rdx'', ''rbx'', ''rsp'', ''rbp'', ''rsi'', ''rdi'']
                      ! (unat (code ! i) - 0xB8))
                   (of_nat (unat (code ! (i + 1)) + 256 * unat (code ! (i + 2))
                      + 65536 * unat (code ! (i + 3)) + 16777216 * unat (code ! (i + 4)))),
                 byteWidth = 5\<rparr> (i + 5)
         \<and> unat (code ! i) - 0xB8 < 8
         \<and> unat (code ! (i + 1)) + 256 * unat (code ! (i + 2))
              + 65536 * unat (code ! (i + 3)) + 16777216 * unat (code ! (i + 4)) < 2 ^ 32
         \<and> (\<exists>r. disassemble_loop code baseAddress i =
               (r # fst (disassemble_loop code baseAddress (i + 5)),
                snd (disassemble_loop code baseAddress (i + 5)))
              \<and> mnemonic r = ''mov'' \<and> byteWidth r = 5)
         \<and> disassemble [0xB8, 0x01, 0x00, 0x00, 0x00, 0x90] 0 =
              ([\<lparr>address = 0, mnemonic = ''mov'', operand = RegImm ''rax'' 0x1, byteWidth = 5\<rparr>,
                \<lparr>address = 5, mnemonic = ''nop'', operand = NoOperand, byteWidth = 1\<rparr>],
               None)"
proof -
  let ?S = "unat (code ! (i + 1)) + 256 * unat (code ! (i + 2))
              + 65536 * unat (code ! (i + 3)) + 16777216 * unat (code ! (i + 4))"
  let ?w = "ucast (code ! (i + 1)) OR push_bit 8 (ucast (code ! (i + 2)))
      OR push_bit 16 (ucast (code ! (i + 3))) OR push_bit 24 (ucast (code ! (i + 4))) :: 32 word"
  have idx: "i + 1 + 1 = i + 2" "i + 1 + 2 = i + 3" "i + 1 + 3 = i + 4"
    by simp_all
  have "i + 1 + 3 < length code"
    using assms(4) by simp
  from read32_in_bounds [OF this] have rd: "read32 code (i + 1) = Some ?w"
    by (simp only: idx)
  have bound: "?S < 2 ^ 32"
    using unsigned_less [of "code ! (i + 1)", where ?'a = nat]
          unsigned_less [of "code ! (i + 2)", where ?'a = nat]
          unsigned_less [of "code ! (i + 3)", where ?'a = nat]
          unsigned_less [of "code ! (i + 4)", where ?'a = nat]
    by simp
  have u: "unat ?w = ?S"
    by (simp only: le32_value)
  have "of_nat (unat ?w) = ?w"
    by simp
  then have w: "?w = of_nat ?S"
    by (simp only: u)
  have reg: "unat (code ! i) - 0xB8 < 8"
    using assms(3) by (simp add: word_le_nat_alt)
  have step: "disassemble_step code baseAddress i =
           Emit \<lparr>address = baseAddress + of_nat i, mnemonic = ''mov'',
                 operand = RegImm
                   ([''rax'', ''rcx'', ''rdx'', ''rbx'', ''rsp'', ''rbp'', ''rsi'', ''rdi'']
                      ! (unat (code ! i) - 0xB8)) (of_nat ?S),
                 byteWidth = 5\<rparr> (i + 5)"
    using assms rd unfolding w
    by (simp add: disassemble_step_def vec_at_def reg_names_def)
  have ex: "disassemble [0xB8, 0x01, 0x00, 0x00, 0x00, 0x90] 0 =
              ([\<lparr>address = 0, mnemonic = ''mov'', operand = RegImm ''rax'' 0x1, byteWidth = 5\<rparr>,
                \<lparr>address = 5, mnemonic = ''nop'', operand = NoOperand, byteWidth = 1\<rparr>],
               None)"
    by (simp add: decoder_eval)
  from disassemble_loop_Emit [OF step] step reg bound ex show ?thesis
    by simp
qed

theorem mov_imm32_decoded_witness:
  "(0::nat) < length [0xB8, 0x01, 0x00, 0x00, 0x00, 0x90 :: byte] \<and>
   (0xB8 :: byte) \<le> [0xB8, 0x01, 0x00, 0x00, 0x00, 0x90] ! 0 \<and>
   [0xB8, 0x01, 0x00, 0x00, 0x00, 0x90] ! 0 \<le> (0xBF :: byte) \<and>
   0 + 5 \<le> length [0xB8, 0x01, 0x00, 0x00, 0x00, 0x90 :: byte] \<and>
   disassemble_step [0xB8, 0x01, 0x00, 0x00, 0x00, 0x90] 0 0 =
     Emit \<lparr>address = 0, mnemonic = ''mov'', operand = RegImm ''rax'' 1, byteWidth = 5\<rparr> 5"
proof -
  let ?code = "[0xB8, 0x01, 0x00, 0x00, 0x00, 0x90] :: byte list"
  have h: "(0::nat) < length ?code" "(0xB8 :: byte) \<le> ?code ! 0" "?code ! 0 \<le> (0xBF :: byte)"
    "0 + 5 \<le> length ?code"
    by simp_all
  from mov_imm32_decoded [OF h, of 0] h show ?thesis
    by simp
qed

subsection \<open>The decoders with the memory behind the buffer\<close>

lemma disassemble_step_mem_nil:
  "disassemble_step_mem code [] baseAddress i = disassemble_step code baseAddress i"
  by (simp only: disassemble_step_mem_def disassemble_step_def append_Nil2)

lemma disassemble32_step_mem_nil:
  "disassemble32_step_mem code [] i = disassemble32_step code i"
  by (simp only: disassemble32_step_mem_def disassemble32_step_def append_Nil2)

lemma read32_behind:
  "k + 3 < length code + length behind \<Longrightarrow> \<exists>imm. read32 (code @ behind) k = Some imm"
  by (simp add: read32_def vec_at_def)

lemma disassemble_step_mem_Emit:
  assumes "i < length code" and "disassemble_step_mem code behind baseAddress i = Emit r j"
  shows "j = i + 1 \<or> j = i + 5" and "j \<le> length code + 1"
    and "byteWidth r = j - i" and "address r = baseAddress + of_nat i"
  using assms
  by (auto simp: disassemble_step_mem_def Let_def split: option.splits if_splits)

lemma disassemble_step_mem_past_end:
  assumes "i < length code" and "disassemble_step_mem code behind baseAddress i = Emit r j"
    and "length code < j"
  shows "i + 4 = length code \<and> 0xB8 \<le> code ! i \<and> code ! i \<le> 0xBF"
  using assms
  by (auto simp: disassemble_step_mem_def vec_at_def nth_append Let_def
        split: option.splits if_splits)

lemma disassemble32_step_mem_past_end:
  assumes "i < length code" and "disassemble32_step_mem code behind i = Emit r j"
    and "length code < j"
  shows "i + 4 = length code \<and> 0xB8 \<le> code ! i \<and> code ! i \<le> 0xBF"
  using assms
  by (auto simp: disassemble32_step_mem_def vec_at_def nth_append Let_def
        split: option.splits if_splits)

lemma disassemble32_step_mem_Emit:
  assumes "i < length code" and "disassemble32_step_mem code behind i = Emit r j"
  shows "j = i + 1 \<or> j = i + 5" and "j \<le> length code + 1"
    and "byteWidth r = j - i" and "address r = of_nat i"
  using assms
  by (auto simp: disassemble32_step_mem_def Let_def split: option.splits if_splits)

lemma disassemble_step_mem_Stop:
  assumes "i < length code" and "disassemble_step_mem code behind baseAddress i = Stop e"
  shows "e = Some TruncatedOperand \<or> e = Some OutOfBoundsRead"
    and "behind \<noteq> [] \<Longrightarrow> e = Some TruncatedOperand"
proof -
  show "e = Some TruncatedOperand \<or> e = Some OutOfBoundsRead"
    using assms
    by (auto simp: disassemble_step_mem_def Let_def split: option.splits if_splits)
  assume "behind \<noteq> []"
  then have b: "0 < length behind" by simp
  have "\<exists>imm. read32 (code @ behind) (i + 1) = Some imm" if "i + 4 \<le> length code"
  proof -
    from that b have "i + 1 + 3 < length code + length behind" by linarith
    then show ?thesis by (rule read32_behind)
  qed
  with assms show "e = Some TruncatedOperand"
    by (auto simp: disassemble_step_mem_def vec_at_def Let_def split: option.splits if_splits)
qed

lemma disassemble32_step_mem_Stop:
  assumes "i < length code" and "disassemble32_step_mem code behind i = Stop e"
  shows "e = Some TruncatedOperand \<or> e = Some OutOfBoundsRead"
    and "behind \<noteq> [] \<Longrightarrow> e = Some TruncatedOperand"
proof -
  show "e = Some TruncatedOperand \<or> e = Some OutOfBoundsRead"
    using assms
    by (auto simp: disassemble32_step_mem_def Let_def split: option.splits if_splits)
  assume "behind \<noteq> []"
  then have b: "0 < length behind" by simp
  have "\<exists>imm. read32 (code @ behind) (i + 1) = Some imm" if "i + 4 \<le> length code"
  proof -
    from that b have "i + 1 + 3 < length code + length behind" by linarith
    then show ?thesis by (rule read32_behind)
  qed
  with assms show "e = Some TruncatedOperand"
    by (auto simp: disassemble32_step_mem_def vec_at_def Let_def split: option.splits if_splits)
qed

lemma disassemble_loop_mem_end:
  "length code \<le> i \<Longrightarrow> disassemble_loop_mem code behind baseAddress i = ([], None)"
  by (simp add: disassemble_loop_mem.simps [of code behind baseAddress i])

lemma disassemble_loop_mem_Stop:
  "i < length code \<Longrightarrow> disassemble_step_mem code behind baseAddress i = Stop e \<Longrightarrow>
   disassemble_loop_mem code behind baseAddress i = ([], e)"
  by (simp add: disassemble_loop_mem.simps [of code behind baseAddress i])

lemma disassemble_loop_mem_Emit:
  "i < length code \<Longrightarrow> disassemble_step_mem code behind baseAddress i = Emit r j \<Longrightarrow>
   disassemble_loop_mem code behind baseAddress i =
     (r # fst (disassemble_loop_mem code behind baseAddress j),
      snd (disassemble_loop_mem code behind baseAddress j))"
  by (simp add: disassemble_loop_mem.simps [of code behind baseAddress i] split: prod.splits)

lemma disassemble_loop_mem_count:
  "length (fst (disassemble_loop_mem code behind baseAddress i)) \<le> length code - i"
proof (induction code behind baseAddress i rule: disassemble_loop_mem.induct)
  case (1 code behind baseAddress i)
  show ?case
  proof (cases "i < length code")
    case False
    then show ?thesis by (simp add: disassemble_loop_mem_end)
  next
    case True
    show ?thesis
    proof (cases "disassemble_step_mem code behind baseAddress i")
      case (Stop e)
      with True show ?thesis by (simp add: disassemble_loop_mem_Stop)
    next
      case (Emit r j)
      from disassemble_step_mem_Emit(1) [OF True Emit] have "i < j" by auto
      moreover from "1.IH" [OF True Emit]
      have "length (fst (disassemble_loop_mem code behind baseAddress j)) \<le> length code - j" .
      ultimately show ?thesis
        using True by (simp add: disassemble_loop_mem_Emit [OF True Emit])
    qed
  qed
qed

lemma disassemble_loop_mem_nil:
  "disassemble_loop_mem code [] baseAddress i = disassemble_loop code baseAddress i"
proof (induction code baseAddress i rule: disassemble_loop.induct)
  case (1 code baseAddress i)
  show ?case
  proof (cases "i < length code")
    case False
    then show ?thesis by (simp add: disassemble_loop_mem_end disassemble_loop_end)
  next
    case True
    show ?thesis
    proof (cases "disassemble_step code baseAddress i")
      case (Stop e)
      with True show ?thesis
        by (simp add: disassemble_loop_mem_Stop disassemble_loop_Stop disassemble_step_mem_nil)
    next
      case (Emit r j)
      then have m: "disassemble_step_mem code [] baseAddress i = Emit r j"
        by (simp add: disassemble_step_mem_nil)
      from "1.IH" [OF True Emit] show ?thesis
        by (simp add: disassemble_loop_mem_Emit [OF True m] disassemble_loop_Emit [OF Emit])
    qed
  qed
qed

lemma disassemble32_loop_mem_end:
  "length code \<le> i \<Longrightarrow> disassemble32_loop_mem code behind i = ([], None)"
  by (simp add: disassemble32_loop_mem.simps [of code behind i])

lemma disassemble32_loop_mem_Stop:
  "i < length code \<Longrightarrow> disassemble32_step_mem code behind i = Stop e \<Longrightarrow>
   disassemble32_loop_mem code behind i = ([], e)"
  by (simp add: disassemble32_loop_mem.simps [of code behind i])

lemma disassemble32_loop_mem_Emit:
  "i < length code \<Longrightarrow> disassemble32_step_mem code behind i = Emit r j \<Longrightarrow>
   disassemble32_loop_mem code behind i =
     (r # fst (disassemble32_loop_mem code behind j),
      snd (disassemble32_loop_mem code behind j))"
  by (simp add: disassemble32_loop_mem.simps [of code behind i] split: prod.splits)

lemma disassemble32_loop_mem_count:
  "length (fst (disassemble32_loop_mem code behind i)) \<le> length code - i"
proof (induction code behind i rule: disassemble32_loop_mem.induct)
  case (1 code behind i)
  show ?case
  proof (cases "i < length code")
    case False
    then show ?thesis by (simp add: disassemble32_loop_mem_end)
  next
    case True
    show ?thesis
    proof (cases "disassemble32_step_mem code behind i")
      case (Stop e)
      with True show ?thesis by (simp add: disassemble32_loop_mem_Stop)
    next
      case (Emit r j)
      from disassemble32_step_mem_Emit(1) [OF True Emit] have "i < j" by auto
      moreover from "1.IH" [OF True Emit]
      have "length (fst (disassemble32_loop_mem code behind j)) \<le> length code - j" .
      ultimately show ?thesis
        using True by (simp add: disassemble32_loop_mem_Emit [OF True Emit])
    qed
  qed
qed

lemma disassemble32_loop_mem_nil:
  "disassemble32_loop_mem code [] i = disassemble32_loop code i"
proof (induction code i rule: disassemble32_loop.induct)
  case (1 code i)
  show ?case
  proof (cases "i < length code")
    case False
    then show ?thesis by (simp add: disassemble32_loop_mem_end disassemble32_loop_end)
  next
    case True
    show ?thesis
    proof (cases "disassemble32_step code i")
      case (Stop e)
      with True show ?thesis
        by (simp add: disassemble32_loop_mem_Stop disassemble32_loop_Stop disassemble32_step_mem_nil)
    next
      case (Emit r j)
      then have m: "disassemble32_step_mem code [] i = Emit r j"
        by (simp add: disassemble32_step_mem_nil)
      from "1.IH" [OF True Emit] show ?thesis
        by (simp add: disassemble32_loop_mem_Emit [OF True m] disassemble32_loop_Emit [OF Emit])
    qed
  qed
qed

lemmas decoder_mem_eval =
  disassemble_mem_def disassemble32_mem_def disassemble_loop_mem.simps
  disassemble32_loop_mem.simps disassemble_step_mem_def disassemble32_step_mem_def
  vec_at_def read32_def reg_names_def reg_names32_def

subsection \<open>Termination\<close>

text \<open>
  Claim C9. The decode terminates, whatever memory holds behind the buffer. It starts
  at cursor 0. Below the end, a step that emits a record moves the cursor forward by 1
  or by 5, the width of the record, to at most one past the end, and the loop goes on
  from the new cursor; when the new cursor is at or past the end, the loop ends there
  with this record as its last. The cursor passes the end only to stop, and only by
  one: at an opcode in \<open>[0xB8, 0xBF]\<close> with exactly three bytes after it. A step that emits nothing ends the loop: with
  \<open>TruncatedOperand\<close>, the only error when a byte behind the buffer is given, or where
  the bytes given do not cover the read. At or past the end the loop returns. Both
  loops are total functions, defined by well-founded recursion on the remaining length
  \<open>length code - i\<close>; they emit at most one record per byte; with no byte given behind
  the buffer they are \<open>disassemble\<close> and \<open>disassemble32\<close>.
\<close>

theorem decode_terminates:
  "(i < length code \<and> disassemble_step_mem code behind baseAddress i = Emit r j \<longrightarrow>
      (j = i + 1 \<or> j = i + 5) \<and> byteWidth r = j - i \<and> j \<le> length code + 1 \<and>
      (length code < j \<longrightarrow> i + 4 = length code \<and> 0xB8 \<le> code ! i \<and> code ! i \<le> 0xBF) \<and>
      disassemble_loop_mem code behind baseAddress i =
        (r # fst (disassemble_loop_mem code behind baseAddress j),
         snd (disassemble_loop_mem code behind baseAddress j)) \<and>
      (length code \<le> j \<longrightarrow> disassemble_loop_mem code behind baseAddress i = ([r], None))) \<and>
   (i < length code \<and> disassemble_step_mem code behind baseAddress i = Stop e \<longrightarrow>
      (e = Some TruncatedOperand \<or> e = Some OutOfBoundsRead) \<and>
      (behind \<noteq> [] \<longrightarrow> e = Some TruncatedOperand) \<and>
      disassemble_loop_mem code behind baseAddress i = ([], e)) \<and>
   (length code \<le> i \<longrightarrow> disassemble_loop_mem code behind baseAddress i = ([], None)) \<and>
   disassemble_mem code behind baseAddress = disassemble_loop_mem code behind baseAddress 0 \<and>
   disassemble code baseAddress = disassemble_mem code [] baseAddress \<and>
   length (fst (disassemble_mem code behind baseAddress)) \<le> length code \<and>
   (i < length code \<and> disassemble32_step_mem code behind i = Emit r j \<longrightarrow>
      (j = i + 1 \<or> j = i + 5) \<and> byteWidth r = j - i \<and> j \<le> length code + 1 \<and>
      (length code < j \<longrightarrow> i + 4 = length code \<and> 0xB8 \<le> code ! i \<and> code ! i \<le> 0xBF) \<and>
      disassemble32_loop_mem code behind i =
        (r # fst (disassemble32_loop_mem code behind j),
         snd (disassemble32_loop_mem code behind j)) \<and>
      (length code \<le> j \<longrightarrow> disassemble32_loop_mem code behind i = ([r], None))) \<and>
   (i < length code \<and> disassemble32_step_mem code behind i = Stop e \<longrightarrow>
      (e = Some TruncatedOperand \<or> e = Some OutOfBoundsRead) \<and>
      (behind \<noteq> [] \<longrightarrow> e = Some TruncatedOperand) \<and>
      disassemble32_loop_mem code behind i = ([], e)) \<and>
   (length code \<le> i \<longrightarrow> disassemble32_loop_mem code behind i = ([], None)) \<and>
   disassemble32_mem code behind = disassemble32_loop_mem code behind 0 \<and>
   disassemble32 code = disassemble32_mem code [] \<and>
   length (fst (disassemble32_mem code behind)) \<le> length code"
proof -
  have e64: "(j = i + 1 \<or> j = i + 5) \<and> byteWidth r = j - i \<and> j \<le> length code + 1 \<and>
      (length code < j \<longrightarrow> i + 4 = length code \<and> 0xB8 \<le> code ! i \<and> code ! i \<le> 0xBF) \<and>
      disassemble_loop_mem code behind baseAddress i =
        (r # fst (disassemble_loop_mem code behind baseAddress j),
         snd (disassemble_loop_mem code behind baseAddress j)) \<and>
      (length code \<le> j \<longrightarrow> disassemble_loop_mem code behind baseAddress i = ([r], None))"
    if "i < length code" "disassemble_step_mem code behind baseAddress i = Emit r j"
    using disassemble_step_mem_Emit(1-3) [OF that] disassemble_loop_mem_Emit [OF that]
      disassemble_step_mem_past_end [OF that]
    by (simp add: disassemble_loop_mem_end)
  have s64: "(e = Some TruncatedOperand \<or> e = Some OutOfBoundsRead) \<and>
      (behind \<noteq> [] \<longrightarrow> e = Some TruncatedOperand) \<and>
      disassemble_loop_mem code behind baseAddress i = ([], e)"
    if "i < length code" "disassemble_step_mem code behind baseAddress i = Stop e"
    using disassemble_step_mem_Stop [OF that] disassemble_loop_mem_Stop [OF that]
    by blast
  have c64: "length (fst (disassemble_mem code behind baseAddress)) \<le> length code"
    using disassemble_loop_mem_count [of code behind baseAddress 0]
    by (simp add: disassemble_mem_def)
  have n64: "disassemble code baseAddress = disassemble_mem code [] baseAddress"
    by (simp add: disassemble_def disassemble_mem_def disassemble_loop_mem_nil)
  have e32: "(j = i + 1 \<or> j = i + 5) \<and> byteWidth r = j - i \<and> j \<le> length code + 1 \<and>
      (length code < j \<longrightarrow> i + 4 = length code \<and> 0xB8 \<le> code ! i \<and> code ! i \<le> 0xBF) \<and>
      disassemble32_loop_mem code behind i =
        (r # fst (disassemble32_loop_mem code behind j),
         snd (disassemble32_loop_mem code behind j)) \<and>
      (length code \<le> j \<longrightarrow> disassemble32_loop_mem code behind i = ([r], None))"
    if "i < length code" "disassemble32_step_mem code behind i = Emit r j"
    using disassemble32_step_mem_Emit(1-3) [OF that] disassemble32_loop_mem_Emit [OF that]
      disassemble32_step_mem_past_end [OF that]
    by (simp add: disassemble32_loop_mem_end)
  have s32: "(e = Some TruncatedOperand \<or> e = Some OutOfBoundsRead) \<and>
      (behind \<noteq> [] \<longrightarrow> e = Some TruncatedOperand) \<and>
      disassemble32_loop_mem code behind i = ([], e)"
    if "i < length code" "disassemble32_step_mem code behind i = Stop e"
    using disassemble32_step_mem_Stop [OF that] disassemble32_loop_mem_Stop [OF that]
    by blast
  have c32: "length (fst (disassemble32_mem code behind)) \<le> length code"
    using disassemble32_loop_mem_count [of code behind 0]
    by (simp add: disassemble32_mem_def)
  have n32: "disassemble32 code = disassemble32_mem code []"
    by (simp add: disassemble32_def disassemble32_mem_def disassemble32_loop_mem_nil)
  from e64 s64 c64 n64 e32 s32 c32 n32 show ?thesis
    by (simp add: disassemble_loop_mem_end disassemble32_loop_mem_end
          disassemble_mem_def disassemble32_mem_def)
qed

theorem decode_terminates_witness:
  "disassemble_step_mem [0xB8, 0x01, 0x00, 0x00, 0x00, 0x90] [] 0 0 =
     Emit \<lparr>address = 0, mnemonic = ''mov'', operand = RegImm ''rax'' 1, byteWidth = 5\<rparr> 5 \<and>
   disassemble_loop_mem [0xB8, 0x01, 0x00, 0x00, 0x00, 0x90] [] 0 0 =
     (\<lparr>address = 0, mnemonic = ''mov'', operand = RegImm ''rax'' 1, byteWidth = 5\<rparr>
        # fst (disassemble_loop_mem [0xB8, 0x01, 0x00, 0x00, 0x00, 0x90] [] 0 5),
      snd (disassemble_loop_mem [0xB8, 0x01, 0x00, 0x00, 0x00, 0x90] [] 0 5)) \<and>
   disassemble_loop_mem [0xB8, 0x01, 0x00, 0x00, 0x00, 0x90] [] 0 6 = ([], None) \<and>
   disassemble_step_mem [0xB8, 0x01, 0x02, 0x03] [0x00] 0 0 =
     Emit \<lparr>address = 0, mnemonic = ''mov'', operand = RegImm ''rax'' 0x030201, byteWidth = 5\<rparr> 5 \<and>
   length [0xB8, 0x01, 0x02, 0x03 :: byte] \<le> 5 \<and>
   disassemble_loop_mem [0xB8, 0x01, 0x02, 0x03] [0x00] 0 0 =
     ([\<lparr>address = 0, mnemonic = ''mov'', operand = RegImm ''rax'' 0x030201, byteWidth = 5\<rparr>],
      None) \<and>
   disassemble_step_mem [0x90, 0xB8] [0x00] 0 1 = Stop (Some TruncatedOperand) \<and>
   disassemble_loop_mem [0x90, 0xB8] [0x00] 0 1 = ([], Some TruncatedOperand) \<and>
   disassemble32_step_mem [0xB8, 0x01, 0x00, 0x00, 0x00, 0xC3] [] 5 =
     Emit \<lparr>address = 5, mnemonic = ''ret'', operand = NoOperand, byteWidth = 1\<rparr> 6 \<and>
   disassemble32_loop_mem [0xB8, 0x01, 0x00, 0x00, 0x00, 0xC3] [] 5 =
     ([\<lparr>address = 5, mnemonic = ''ret'', operand = NoOperand, byteWidth = 1\<rparr>], None) \<and>
   disassemble32_step_mem [0x90, 0xB8] [0x00] 1 = Stop (Some TruncatedOperand) \<and>
   disassemble32_loop_mem [0x90, 0xB8] [0x00] 1 = ([], Some TruncatedOperand) \<and>
   disassemble32_loop_mem [0x90, 0xB8] [0x00] 2 = ([], None)"
proof -
  let ?c = "[0xB8, 0x01, 0x00, 0x00, 0x00, 0x90] :: byte list"
  let ?d = "[0xB8, 0x01, 0x02, 0x03] :: byte list"
  let ?c32 = "[0xB8, 0x01, 0x00, 0x00, 0x00, 0xC3] :: byte list"
  let ?t = "[0x90, 0xB8] :: byte list"
  let ?mov = "\<lparr>address = 0 :: 64 word, mnemonic = ''mov'', operand = RegImm ''rax'' 1, byteWidth = 5\<rparr>"
  let ?over = "\<lparr>address = 0 :: 64 word, mnemonic = ''mov'', operand = RegImm ''rax'' 0x030201,
                 byteWidth = 5\<rparr>"
  let ?ret = "\<lparr>address = 5 :: 64 word, mnemonic = ''ret'', operand = NoOperand, byteWidth = 1\<rparr>"
  have s1: "(0::nat) < length ?c \<and> disassemble_step_mem ?c [] 0 0 = Emit ?mov 5"
    by (simp add: disassemble_step_mem_def vec_at_def read32_def reg_names_def)
  have s2: "(0::nat) < length ?d \<and> disassemble_step_mem ?d [0x00] 0 0 = Emit ?over 5"
    by (simp add: disassemble_step_mem_def vec_at_def read32_def reg_names_def)
  have s3: "length ?d \<le> 5" "length ?c \<le> 6" "length ?c32 \<le> 6" "length ?t \<le> 2"
    by simp_all
  have s4: "(1::nat) < length ?t \<and> disassemble_step_mem ?t [0x00] 0 1 = Stop (Some TruncatedOperand)"
    by (simp add: disassemble_step_mem_def vec_at_def)
  have s5: "(5::nat) < length ?c32 \<and> disassemble32_step_mem ?c32 [] 5 = Emit ?ret 6"
    by (simp add: disassemble32_step_mem_def vec_at_def)
  have s6: "(1::nat) < length ?t \<and> disassemble32_step_mem ?t [0x00] 1 = Stop (Some TruncatedOperand)"
    by (simp add: disassemble32_step_mem_def vec_at_def)
  from decode_terminates [of 0 ?c "[]" 0 ?mov 5] s1
  have a1: "disassemble_loop_mem ?c [] 0 0 =
      (?mov # fst (disassemble_loop_mem ?c [] 0 5), snd (disassemble_loop_mem ?c [] 0 5))"
    by blast
  from decode_terminates [of 6 ?c "[]" 0] s3(2)
  have a2: "disassemble_loop_mem ?c [] 0 6 = ([], None)"
    by blast
  from decode_terminates [of 0 ?d "[0x00]" 0 ?over 5] s2 s3(1)
  have a3: "disassemble_loop_mem ?d [0x00] 0 0 = ([?over], None)"
    by blast
  from decode_terminates [of 1 ?t "[0x00]" 0 _ _ "Some TruncatedOperand"] s4
  have a4: "disassemble_loop_mem ?t [0x00] 0 1 = ([], Some TruncatedOperand)"
    by blast
  from decode_terminates [of 5 ?c32 "[]" _ ?ret 6] s5 s3(3)
  have a5: "disassemble32_loop_mem ?c32 [] 5 = ([?ret], None)"
    by blast
  from decode_terminates [of 1 ?t "[0x00]" _ _ _ "Some TruncatedOperand"] s6
  have a6: "disassemble32_loop_mem ?t [0x00] 1 = ([], Some TruncatedOperand)"
    by blast
  from decode_terminates [of 2 ?t "[0x00]"] s3(4)
  have a7: "disassemble32_loop_mem ?t [0x00] 2 = ([], None)"
    by blast
  from s1 s2 s3(1) s4 s5 s6 a1 a2 a3 a4 a5 a6 a7 show ?thesis
    by blast
qed

subsection \<open>Tiling\<close>

lemma sum_list_take_le:
  "sum_list (map f (take k xs)) \<le> sum_list (map f xs)" for f :: "'a \<Rightarrow> nat"
proof -
  have "sum_list (map f xs) = sum_list (map f (take k xs)) + sum_list (map f (drop k xs))"
    by (metis append_take_drop_id map_append sum_list_append)
  then show ?thesis by simp
qed

lemma tiling_from_addresses:
  fixes rs :: "decoded list"
  assumes total: "sum_list (map byteWidth rs) = n"
    and addr: "\<And>k. k < length rs \<Longrightarrow>
                 address (rs ! k) = of_nat (sum_list (map byteWidth (take k rs)))
                 \<and> (byteWidth (rs ! k) = 1 \<or> byteWidth (rs ! k) = 5)"
    and small: "n < 2 ^ 64"
  shows "(\<forall>k<length rs. unat (address (rs ! k)) = sum_list (map byteWidth (take k rs))) \<and>
         (\<forall>k. Suc k < length rs \<longrightarrow>
            unat (address (rs ! Suc k)) = unat (address (rs ! k)) + byteWidth (rs ! k) \<and>
            unat (address (rs ! k)) < unat (address (rs ! Suc k)))"
proof -
  have u: "unat (address (rs ! k)) = sum_list (map byteWidth (take k rs))" if "k < length rs" for k
  proof -
    have "sum_list (map byteWidth (take k rs)) < 2 ^ 64"
      using sum_list_take_le [of byteWidth k rs] total small by simp
    then show ?thesis
      using addr [OF that] by (simp add: unat_of_nat take_bit_nat_eq_self)
  qed
  have s: "unat (address (rs ! Suc k)) = unat (address (rs ! k)) + byteWidth (rs ! k) \<and>
           unat (address (rs ! k)) < unat (address (rs ! Suc k))" if "Suc k < length rs" for k
  proof -
    from that have k: "k < length rs" by simp
    have "take (Suc k) rs = take k rs @ [rs ! k]"
      using k by (simp add: take_Suc_conv_app_nth)
    then have "sum_list (map byteWidth (take (Suc k) rs))
                 = sum_list (map byteWidth (take k rs)) + byteWidth (rs ! k)"
      by simp
    with u [OF that] u [OF k] addr [OF k] show ?thesis by auto
  qed
  from u s show ?thesis by blast
qed

text \<open>
  Where a decode from base address 0 ends without error and without a read outside the
  buffer, the records tile the input: the widths sum to the input's length, each
  record's address is the sum of the widths of the records before it (as a 64-bit
  value; as a number for any input shorter than \<open>2 ^ 64\<close> bytes), and each next address
  is the address before it plus that record's width, hence strictly greater.
\<close>

lemma records_tile_input:
  "(disassemble code 0 = (rs, None) \<longrightarrow>
      sum_list (map byteWidth rs) = length code \<and>
      (\<forall>k<length rs. address (rs ! k) = of_nat (sum_list (map byteWidth (take k rs)))) \<and>
      (length code < 2 ^ 64 \<longrightarrow>
         (\<forall>k<length rs. unat (address (rs ! k)) = sum_list (map byteWidth (take k rs))) \<and>
         (\<forall>k. Suc k < length rs \<longrightarrow>
            unat (address (rs ! Suc k)) = unat (address (rs ! k)) + byteWidth (rs ! k) \<and>
            unat (address (rs ! k)) < unat (address (rs ! Suc k))))) \<and>
   (disassemble32 code = (rs, None) \<longrightarrow>
      sum_list (map byteWidth rs) = length code \<and>
      (\<forall>k<length rs. address (rs ! k) = of_nat (sum_list (map byteWidth (take k rs)))) \<and>
      (length code < 2 ^ 64 \<longrightarrow>
         (\<forall>k<length rs. unat (address (rs ! k)) = sum_list (map byteWidth (take k rs))) \<and>
         (\<forall>k. Suc k < length rs \<longrightarrow>
            unat (address (rs ! Suc k)) = unat (address (rs ! k)) + byteWidth (rs ! k) \<and>
            unat (address (rs ! k)) < unat (address (rs ! Suc k)))))"
proof (intro conjI impI)
  assume d: "disassemble code 0 = (rs, None)"
  from disassemble_loop_tiles [of code 0 0 rs] d
  have t: "sum_list (map byteWidth rs) = length code"
    and a: "\<And>k. k < length rs \<Longrightarrow>
              address (rs ! k) = of_nat (sum_list (map byteWidth (take k rs)))
              \<and> (byteWidth (rs ! k) = 1 \<or> byteWidth (rs ! k) = 5)"
    by (simp_all add: disassemble_def)
  show "sum_list (map byteWidth rs) = length code" by (rule t)
  show "\<forall>k<length rs. address (rs ! k) = of_nat (sum_list (map byteWidth (take k rs)))"
    using a by blast
  assume "length code < 2 ^ 64"
  from tiling_from_addresses [OF t a this]
  show "\<forall>k<length rs. unat (address (rs ! k)) = sum_list (map byteWidth (take k rs))"
    and "\<forall>k. Suc k < length rs \<longrightarrow>
            unat (address (rs ! Suc k)) = unat (address (rs ! k)) + byteWidth (rs ! k) \<and>
            unat (address (rs ! k)) < unat (address (rs ! Suc k))"
    by blast+
next
  assume d: "disassemble32 code = (rs, None)"
  from disassemble32_loop_tiles [of code 0 rs] d
  have t: "sum_list (map byteWidth rs) = length code"
    and a: "\<And>k. k < length rs \<Longrightarrow>
              address (rs ! k) = of_nat (sum_list (map byteWidth (take k rs)))
              \<and> (byteWidth (rs ! k) = 1 \<or> byteWidth (rs ! k) = 5)"
    by (simp_all add: disassemble32_def)
  show "sum_list (map byteWidth rs) = length code" by (rule t)
  show "\<forall>k<length rs. address (rs ! k) = of_nat (sum_list (map byteWidth (take k rs)))"
    using a by blast
  assume "length code < 2 ^ 64"
  from tiling_from_addresses [OF t a this]
  show "\<forall>k<length rs. unat (address (rs ! k)) = sum_list (map byteWidth (take k rs))"
    and "\<forall>k. Suc k < length rs \<longrightarrow>
            unat (address (rs ! Suc k)) = unat (address (rs ! k)) + byteWidth (rs ! k) \<and>
            unat (address (rs ! k)) < unat (address (rs ! Suc k))"
    by blast+
qed

lemma records_tile_input_example:
  "disassemble [0xB8, 0x01, 0x00, 0x00, 0x00, 0x90] 0 =
     ([\<lparr>address = 0, mnemonic = ''mov'', operand = RegImm ''rax'' 1, byteWidth = 5\<rparr>,
       \<lparr>address = 5, mnemonic = ''nop'', operand = NoOperand, byteWidth = 1\<rparr>], None) \<and>
   disassemble32 [0xB8, 0x01, 0x00, 0x00, 0x00, 0xC3] =
     ([\<lparr>address = 0, mnemonic = ''mov'', operand = RegImm ''eax'' 1, byteWidth = 5\<rparr>,
       \<lparr>address = 5, mnemonic = ''ret'', operand = NoOperand, byteWidth = 1\<rparr>], None) \<and>
   length [0xB8, 0x01, 0x00, 0x00, 0x00, 0x90 :: byte] < 2 ^ 64 \<and>
   sum_list (map byteWidth
     [\<lparr>address = 0 :: 64 word, mnemonic = ''mov'', operand = RegImm ''rax'' 1, byteWidth = 5\<rparr>,
      \<lparr>address = 5, mnemonic = ''nop'', operand = NoOperand, byteWidth = 1\<rparr>])
     = length [0xB8, 0x01, 0x00, 0x00, 0x00, 0x90 :: byte] \<and>
   sum_list (map byteWidth
     [\<lparr>address = 0 :: 64 word, mnemonic = ''mov'', operand = RegImm ''eax'' 1, byteWidth = 5\<rparr>,
      \<lparr>address = 5, mnemonic = ''ret'', operand = NoOperand, byteWidth = 1\<rparr>])
     = length [0xB8, 0x01, 0x00, 0x00, 0x00, 0xC3 :: byte] \<and>
   unat (address
     ([\<lparr>address = 0 :: 64 word, mnemonic = ''mov'', operand = RegImm ''rax'' 1, byteWidth = 5\<rparr>,
       \<lparr>address = 5, mnemonic = ''nop'', operand = NoOperand, byteWidth = 1\<rparr>] ! 1)) =
   sum_list (map byteWidth (take 1
     [\<lparr>address = 0 :: 64 word, mnemonic = ''mov'', operand = RegImm ''rax'' 1, byteWidth = 5\<rparr>,
      \<lparr>address = 5, mnemonic = ''nop'', operand = NoOperand, byteWidth = 1\<rparr>]))"
proof -
  let ?c = "[0xB8, 0x01, 0x00, 0x00, 0x00, 0x90] :: byte list"
  let ?d = "[0xB8, 0x01, 0x00, 0x00, 0x00, 0xC3] :: byte list"
  let ?rs = "[\<lparr>address = 0 :: 64 word, mnemonic = ''mov'', operand = RegImm ''rax'' 1, byteWidth = 5\<rparr>,
       \<lparr>address = 5, mnemonic = ''nop'', operand = NoOperand, byteWidth = 1\<rparr>]"
  let ?rs32 = "[\<lparr>address = 0 :: 64 word, mnemonic = ''mov'', operand = RegImm ''eax'' 1, byteWidth = 5\<rparr>,
       \<lparr>address = 5, mnemonic = ''ret'', operand = NoOperand, byteWidth = 1\<rparr>]"
  have h1: "disassemble ?c 0 = (?rs, None)"
    by (simp add: decoder_eval)
  have h2: "disassemble32 ?d = (?rs32, None)"
    by (simp add: decoder_eval)
  have h3: "length ?c < 2 ^ 64" by simp
  from records_tile_input [of ?c ?rs] h1 have "sum_list (map byteWidth ?rs) = length ?c"
    by blast
  moreover from records_tile_input [of ?d ?rs32] h2 have "sum_list (map byteWidth ?rs32) = length ?d"
    by blast
  moreover from records_tile_input [of ?c ?rs] h1 h3
  have "\<forall>k<length ?rs. unat (address (?rs ! k)) = sum_list (map byteWidth (take k ?rs))"
    by blast
  then have "unat (address (?rs ! 1)) = sum_list (map byteWidth (take 1 ?rs))"
    by simp
  ultimately show ?thesis using h1 h2 h3 by blast
qed

text \<open>
  Claim C10 (code defect). The claim: when a decode completes without error, the records
  tile the input, and their widths sum to the input's length. On the four bytes
  \<open>B8 01 02 03\<close> the truncation guard \<open>i + 4 > code.size()\<close> does not fire, the immediate
  is read with its last byte taken from behind the buffer, the \<open>mov\<close> line is written
  and the cursor moves to 5: the decode ends with no error reported and one record of
  width 5 for an input of 4 bytes, whatever the byte behind the buffer is. Likewise the
  five bytes \<open>90 BD 11 22 33\<close> decode to widths 1 and 5.
\<close>

theorem tiling_broken_at_three_operand_bytes:
  "length [0xB8, 0x01, 0x02, 0x03 :: byte] = 4 \<and>
   disassemble_mem [0xB8, 0x01, 0x02, 0x03] [0x00] 0 =
     ([\<lparr>address = 0, mnemonic = ''mov'', operand = RegImm ''rax'' 0x030201, byteWidth = 5\<rparr>],
      None) \<and>
   disassemble32_mem [0xB8, 0x01, 0x02, 0x03] [0x00] =
     ([\<lparr>address = 0, mnemonic = ''mov'', operand = RegImm ''eax'' 0x030201, byteWidth = 5\<rparr>],
      None) \<and>
   snd (disassemble_mem [0xB8, 0x01, 0x02, 0x03] (g # behind) 0) = None \<and>
   map byteWidth (fst (disassemble_mem [0xB8, 0x01, 0x02, 0x03] (g # behind) 0)) = [5] \<and>
   snd (disassemble32_mem [0xB8, 0x01, 0x02, 0x03] (g # behind)) = None \<and>
   map byteWidth (fst (disassemble32_mem [0xB8, 0x01, 0x02, 0x03] (g # behind))) = [5] \<and>
   length [0x90, 0xBD, 0x11, 0x22, 0x33 :: byte] = 5 \<and>
   disassemble_mem [0x90, 0xBD, 0x11, 0x22, 0x33] [0x00] 0 =
     ([\<lparr>address = 0, mnemonic = ''nop'', operand = NoOperand, byteWidth = 1\<rparr>,
       \<lparr>address = 1, mnemonic = ''mov'', operand = RegImm ''rbp'' 0x332211, byteWidth = 5\<rparr>],
      None)"
  by (simp add: decoder_mem_eval)

section \<open>Properties of the section locator\<close>

lemma c_string_at_outside: "length data \<le> pos \<Longrightarrow> c_string_at data pos = None"
  by (simp add: c_string_at_def)

lemma c_string_at_inside:
  "pos < length data \<Longrightarrow>
   c_string_at data pos =
     (if data ! pos = 0 then Some [] else map_option ((#) (data ! pos)) (c_string_at data (Suc pos)))"
proof -
  assume "pos < length data"
  then have "drop pos data = data ! pos # drop (Suc pos) data"
    by (simp add: Cons_nth_drop_Suc)
  then show ?thesis
    by (auto simp: c_string_at_def)
qed


lemma strcmp_eq_resolved:
  "c_string_at data pos = Some s \<Longrightarrow> 0 \<notin> set lit \<Longrightarrow> strcmp_eq data pos lit = Some (s = lit)"
proof (induction lit arbitrary: pos s)
  case Nil
  then show ?case
    by (cases "pos < length data")
       (auto simp: vec_at_def c_string_at_inside c_string_at_outside split: if_splits)
next
  case (Cons c cs)
  then have c: "c \<noteq> 0" and cs: "0 \<notin> set cs" by auto
  show ?case
  proof (cases "pos < length data")
    case False
    with Cons.prems show ?thesis by (simp add: c_string_at_outside)
  next
    case True
    show ?thesis
    proof (cases "data ! pos = 0")
      case z: True
      with True Cons.prems c show ?thesis
        by (auto simp: vec_at_def c_string_at_inside)
    next
      case nz: False
      with True Cons.prems obtain s' where s': "c_string_at data (Suc pos) = Some s'"
        and s: "s = data ! pos # s'"
        by (auto simp: c_string_at_inside)
      from Cons.IH [OF s' cs] True nz c s show ?thesis
        by (auto simp: vec_at_def)
    qed
  qed
qed

lemma dot_text_no_zero: "0 \<notin> set dot_text"
  by (simp add: dot_text_def)

lemma strcmp_eq_take:
  "0 \<notin> set lit \<Longrightarrow> pos + length lit < length data \<Longrightarrow>
   strcmp_eq data pos lit = Some (take (Suc (length lit)) (drop pos data) = lit @ [0])"
proof (induction lit arbitrary: pos)
  case Nil
  then have "drop pos data = data ! pos # drop (Suc pos) data"
    by (simp add: Cons_nth_drop_Suc)
  with Nil show ?case
    by (simp add: vec_at_def)
next
  case (Cons c cs)
  then have c: "c \<noteq> 0" and cs: "0 \<notin> set cs" and pos: "pos < length data"
    and rest: "Suc pos + length cs < length data"
    by auto
  have d: "drop pos data = data ! pos # drop (Suc pos) data"
    using pos by (simp add: Cons_nth_drop_Suc)
  from Cons.IH [OF cs rest] c pos show ?case
    by (simp add: vec_at_def d)
qed

lemma strcmp_eq_dot_text_six:
  assumes "pos + 6 \<le> length data"
  shows "strcmp_eq data pos dot_text = Some (take 6 (drop pos data) = dot_text @ [0])"
proof -
  have l: "length dot_text = 5" and s: "Suc (length dot_text) = 6"
    by (simp_all add: dot_text_def)
  from assms have "pos + length dot_text < length data"
    by (simp add: l)
  from strcmp_eq_take [OF dot_text_no_zero this] show ?thesis
    by (simp only: s)
qed

subsection \<open>Pointer sums that do not wrap\<close>

lemma ptr_plus_nat:
  fixes p :: "64 word"
  assumes "unat p + k < 2 ^ 64"
  shows "unat (p + of_nat k) = unat p + k"
proof -
  from assms have k: "k < 2 ^ 64" by simp
  then have "unat (of_nat k :: 64 word) = k"
    by (simp add: unat_of_nat take_bit_nat_eq_self)
  with assms show ?thesis
    by (simp add: unat_word_ariths)
qed

lemma ptr_plus_field:
  fixes p :: "64 word"
  assumes "unat p + 64 < 2 ^ 64"
  shows "unat (p + 24) = unat p + 24" and "unat (p + 32) = unat p + 32"
  using ptr_plus_nat [of p 24] ptr_plus_nat [of p 32] assms by simp_all

lemma ptr_plus_name:
  fixes p :: "64 word" and name :: "32 word"
  assumes "unat p + unat name < 2 ^ 64"
  shows "unat (p + ucast name) = unat p + unat name"
proof -
  have "unat name < 2 ^ 64"
    using unsigned_less [of name, where ?'a = nat] by simp
  then have "unat (ucast name :: 64 word) = unat name"
    by (simp add: unsigned_ucast_eq take_bit_nat_eq_self)
  with assms show ?thesis
    by (simp add: unat_word_ariths)
qed

lemma bytes_at_Some:
  "bytes_at data off n = Some bs \<Longrightarrow> length data < 2 ^ 64 \<and> off + n \<le> length data"
  by (simp add: bytes_at_def split: if_splits)

lemma field32_Some:
  "field32 data off = Some v \<Longrightarrow> length data < 2 ^ 64 \<and> off + 4 \<le> length data"
  by (auto simp: field32_def dest: bytes_at_Some)

lemma overlay_Elf64_Shdr_Some:
  "overlay_Elf64_Shdr data off = Some entry \<Longrightarrow> length data < 2 ^ 64 \<and> off + 64 \<le> length data"
  by (auto simp: overlay_Elf64_Shdr_def sizeof_Elf64_Shdr_def split: option.splits
        dest: bytes_at_Some)

lemma c_string_at_Some: "c_string_at data pos = Some s \<Longrightarrow> pos < length data"
  by (cases "pos < length data") (simp_all add: c_string_at_outside)

lemma overlay_Elf64_Shdr_fields:
  assumes "overlay_Elf64_Shdr data off = Some entry"
  shows "field32 data off = Some (sh_name entry)"
    and "field64 data (off + 24) = Some (sh_offset entry)"
    and "field64 data (off + 32) = Some (sh_size entry)"
proof -
  from overlay_Elf64_Shdr_Some [OF assms] have b: "length data < 2 ^ 64" "off + 64 \<le> length data"
    by simp_all
  with assms have
    e: "entry = \<lparr>sh_name = le_word (take 4 (take 64 (drop off data))),
                sh_type = le_word (take 4 (drop 4 (take 64 (drop off data)))),
                sh_flags = le_word (take 8 (drop 8 (take 64 (drop off data)))),
                sh_addr = le_word (take 8 (drop 16 (take 64 (drop off data)))),
                sh_offset = le_word (take 8 (drop 24 (take 64 (drop off data)))),
                sh_size = le_word (take 8 (drop 32 (take 64 (drop off data)))),
                sh_link = le_word (take 4 (drop 40 (take 64 (drop off data)))),
                sh_info = le_word (take 4 (drop 44 (take 64 (drop off data)))),
                sh_addralign = le_word (take 8 (drop 48 (take 64 (drop off data)))),
                sh_entsize = le_word (take 8 (drop 56 (take 64 (drop off data))))\<rparr>"
    by (auto simp: overlay_Elf64_Shdr_def bytes_at_def sizeof_Elf64_Shdr_def split: if_splits)
  show "field32 data off = Some (sh_name entry)"
    using b by (simp add: e field32_def bytes_at_def)
  show "field64 data (off + 24) = Some (sh_offset entry)"
    using b by (simp add: e field64_def bytes_at_def drop_take add.commute)
  show "field64 data (off + 32) = Some (sh_size entry)"
    using b by (simp add: e field64_def bytes_at_def drop_take add.commute)
qed

text \<open>The fields of an entry that lies inside the image, through the pointer to it.\<close>

lemma overlay_Elf64_Shdr_fields_ptr:
  fixes p :: "64 word"
  assumes "overlay_Elf64_Shdr data (unat p) = Some entry"
  shows "field32 data (unat p) = Some (sh_name entry)"
    and "field64 data (unat (p + 24)) = Some (sh_offset entry)"
    and "field64 data (unat (p + 32)) = Some (sh_size entry)"
proof -
  from overlay_Elf64_Shdr_Some [OF assms] have "unat p + 64 < 2 ^ 64" by simp
  from ptr_plus_field [OF this] overlay_Elf64_Shdr_fields [OF assms]
  show "field32 data (unat p) = Some (sh_name entry)"
    and "field64 data (unat (p + 24)) = Some (sh_offset entry)"
    and "field64 data (unat (p + 32)) = Some (sh_size entry)"
    by simp_all
qed

subsection \<open>The loop of the locator\<close>



lemma findTextSection_loop_skip:
  "i < n \<Longrightarrow> entry_is_text d sh st i = Some False \<Longrightarrow>
   findTextSection_loop d sh st n i = findTextSection_loop d sh st n (Suc i)"
  by (auto simp: findTextSection_loop.simps [of d sh st n i] entry_is_text_def
           split: option.splits bool.splits)

lemma findTextSection_loop_hit:
  "i < n \<Longrightarrow> entry_is_text d sh st i = Some True \<Longrightarrow>
   findTextSection_loop d sh st n i =
     (case field64 d (unat (sh + of_nat (sizeof_Elf64_Shdr * i) + 24)) of
        None \<Rightarrow> Inl OutOfBoundsRead
      | Some textSectionOffset \<Rightarrow>
          (case field64 d (unat (sh + of_nat (sizeof_Elf64_Shdr * i) + 32)) of
             None \<Rightarrow> Inl OutOfBoundsRead
           | Some textSectionSize \<Rightarrow> Inr (textSectionOffset, textSectionSize)))"
  by (auto simp: findTextSection_loop.simps [of d sh st n i] entry_is_text_def
           split: option.splits bool.splits)





subsection \<open>The locator and the resolved names\<close>



text \<open>
  An entry that lies inside the image at its exact offset is where the pointer sum
  points, and so is a name that resolves.
\<close>

lemma entry_ptr_exact:
  fixes p :: "64 word"
  assumes "length data < 2 ^ 64" and "unat p + k \<le> length data"
  shows "unat (p + of_nat k) = unat p + k"
  using assms by (intro ptr_plus_nat) simp

lemma entry_is_text_resolved:
  assumes name: "section_name data hdr i = Some s"
    and st: "overlay_Elf64_Shdr data
               (unat (e_shoff hdr) + sizeof_Elf64_Shdr * unat (e_shstrndx hdr)) = Some st"
  shows "entry_is_text data (e_shoff hdr) (sh_offset st) i = Some (s = dot_text)"
proof -
  from name st obtain nm where
    f: "field32 data (unat (e_shoff hdr) + sizeof_Elf64_Shdr * i) = Some nm"
    and c: "c_string_at data (unat (sh_offset st) + unat nm) = Some s"
    by (auto simp: section_name_def split: option.splits)
  from field32_Some [OF f] have l: "length data < 2 ^ 64"
    and "unat (e_shoff hdr) + sizeof_Elf64_Shdr * i \<le> length data"
    by simp_all
  then have p: "unat (e_shoff hdr + of_nat (sizeof_Elf64_Shdr * i))
                  = unat (e_shoff hdr) + sizeof_Elf64_Shdr * i"
    by (rule entry_ptr_exact)
  from c_string_at_Some [OF c] l have "unat (sh_offset st) + unat nm < 2 ^ 64"
    by simp
  then have q: "unat (sh_offset st + ucast nm) = unat (sh_offset st) + unat nm"
    by (rule ptr_plus_name)
  from strcmp_eq_resolved [OF c dot_text_no_zero] show ?thesis
    unfolding entry_is_text_def p by (simp add: f q)
qed


subsection \<open>First match\<close>


subsection \<open>Failure outcomes\<close>


subsection \<open>The name-pool read\<close>

text \<open>
  Claim C6, as amended. The locator never compares a name offset with the size of the
  string-table section. For an entry of the table that lies inside the image, the name
  is read from the image at the string table's file offset plus the entry's name offset
  (a 64-bit pointer sum), and the read is bounded by the image only: whenever the six
  bytes from that position lie inside the image, the entry matches exactly when they
  are \<open>.text\<close> and a zero byte, and no error is returned for the entry: the scan returns
  the entry's offset and size on a match and moves on to the next entry otherwise.
\<close>

theorem name_read_bounded_by_image_only:
  assumes i: "i < unat (e_shnum hdr)"
    and entry: "overlay_Elf64_Shdr data
                  (unat (e_shoff hdr + of_nat (sizeof_Elf64_Shdr * i))) = Some entry"
    and inside: "unat (sh_offset st + ucast (sh_name entry)) + 6 \<le> length data"
  shows "entry_is_text data (e_shoff hdr) (sh_offset st) i =
           Some (take 6 (drop (unat (sh_offset st + ucast (sh_name entry))) data) = dot_text @ [0])
         \<and> findTextSection_loop data (e_shoff hdr) (sh_offset st) (unat (e_shnum hdr)) i =
             (if take 6 (drop (unat (sh_offset st + ucast (sh_name entry))) data) = dot_text @ [0]
              then Inr (sh_offset entry, sh_size entry)
              else findTextSection_loop data (e_shoff hdr) (sh_offset st)
                     (unat (e_shnum hdr)) (Suc i))"
proof -
  let ?sh = "e_shoff hdr" and ?pool = "sh_offset st" and ?n = "unat (e_shnum hdr)"
  let ?m = "take 6 (drop (unat (?pool + ucast (sh_name entry))) data) = dot_text @ [0]"
  note f = overlay_Elf64_Shdr_fields_ptr [OF entry]
  have t: "entry_is_text data ?sh ?pool i = Some ?m"
    using f(1) strcmp_eq_dot_text_six [OF inside] by (simp add: entry_is_text_def)
  have l: "findTextSection_loop data ?sh ?pool ?n i =
             (if ?m then Inr (sh_offset entry, sh_size entry)
              else findTextSection_loop data ?sh ?pool ?n (Suc i))"
  proof (cases ?m)
    case True
    with t have "entry_is_text data ?sh ?pool i = Some True" by simp
    from findTextSection_loop_hit [OF i this] True f(2,3) show ?thesis by simp
  next
    case False
    with t have "entry_is_text data ?sh ?pool i = Some False" by simp
    from findTextSection_loop_skip [OF i this] False show ?thesis by simp
  qed
  from t l show ?thesis by blast
qed

subsection \<open>The example images, read\<close>

lemma length_elf64_header_bytes: "length elf64_header_bytes = 64"
  by (simp add: elf64_header_bytes_def)

lemma length_section_entry_bytes:
  "length name = 4 \<Longrightarrow> length off = 8 \<Longrightarrow> length sz = 8 \<Longrightarrow>
   length (section_entry_bytes name off sz) = 64"
  by (simp add: section_entry_bytes_def)

lemmas image_lengths = length_elf64_header_bytes length_section_entry_bytes

lemma length_two_text_image: "length two_text_image = 265"
  by (simp add: two_text_image_def image_lengths name_pool_bytes_def)

lemma length_stray_name_image: "length stray_name_image = 265"
  by (simp add: stray_name_image_def image_lengths name_pool_bytes_def)

lemma length_overflow_image: "length overflow_image = 265"
  by (simp add: overflow_image_def image_lengths name_pool_bytes_def)


lemma le_word_zeros: "le_word (replicate n 0) = 0"
  by (induction n) simp_all

lemma header_of_two_text_image: "overlay_Elf64_Ehdr two_text_image = Some example_header"
  apply (simp add: overlay_Elf64_Ehdr_def bytes_at_def length_two_text_image sizeof_Elf64_Ehdr_def)
  apply (simp add: two_text_image_def image_lengths)
  apply (simp add: elf64_header_bytes_def example_header_def)
  done

lemma string_table_of_two_text_image:
  "overlay_Elf64_Shdr two_text_image 64 =
     Some \<lparr>sh_name = 0, sh_type = 1, sh_flags = 0, sh_addr = 0, sh_offset = 256, sh_size = 7,
           sh_link = 0, sh_info = 0, sh_addralign = 0, sh_entsize = 0\<rparr>"
  apply (simp add: overlay_Elf64_Shdr_def bytes_at_def length_two_text_image sizeof_Elf64_Shdr_def)
  apply (simp add: two_text_image_def image_lengths)
  apply (simp add: section_entry_bytes_def le_word_zeros)
  done

lemma entry1_of_two_text_image:
  "overlay_Elf64_Shdr two_text_image 128 =
     Some \<lparr>sh_name = 1, sh_type = 1, sh_flags = 0, sh_addr = 0, sh_offset = 263, sh_size = 1,
           sh_link = 0, sh_info = 0, sh_addralign = 0, sh_entsize = 0\<rparr>"
  apply (simp add: overlay_Elf64_Shdr_def bytes_at_def length_two_text_image sizeof_Elf64_Shdr_def)
  apply (simp add: two_text_image_def image_lengths)
  apply (simp add: section_entry_bytes_def le_word_zeros)
  done

lemma names_of_two_text_image:
  "field32 two_text_image 64 = Some 0"
  "field32 two_text_image 128 = Some 1"
  "field32 two_text_image 192 = Some 1"
  apply (simp_all add: field32_def bytes_at_def length_two_text_image)
  apply (simp_all add: two_text_image_def image_lengths)
  apply (simp_all add: section_entry_bytes_def le_word_zeros)
  done

lemma c_strings_of_two_text_image:
  "c_string_at two_text_image 256 = Some []"
  "c_string_at two_text_image 257 = Some dot_text"
  apply (simp_all add: c_string_at_def)
  apply (simp_all add: two_text_image_def image_lengths name_pool_bytes_def dot_text_def)
  done

lemma section_names_of_two_text_image:
  "section_name two_text_image example_header 0 = Some []"
  "section_name two_text_image example_header 1 = Some dot_text"
  "section_name two_text_image example_header 2 = Some dot_text"
  by (simp_all add: section_name_def example_header_def sizeof_Elf64_Shdr_def
        string_table_of_two_text_image names_of_two_text_image c_strings_of_two_text_image)


lemma tests_of_two_text_image:
  "entry_is_text two_text_image 64 256 0 = Some False"
  "entry_is_text two_text_image 64 256 (Suc 0) = Some True"
  using entry_is_text_resolved [of two_text_image example_header 0 "[]", OF
        section_names_of_two_text_image(1)]
    entry_is_text_resolved [of two_text_image example_header 1 dot_text, OF
        section_names_of_two_text_image(2)]
  by (simp_all add: example_header_def sizeof_Elf64_Shdr_def string_table_of_two_text_image
        dot_text_def)

lemma scan_of_two_text_image:
  "findTextSection two_text_image example_header =
     findTextSection_loop two_text_image 64 256 3 0"
  by (simp add: findTextSection_def example_header_def sizeof_Elf64_Shdr_def
        string_table_of_two_text_image)

lemma locate_two_text_image:
  "findTextSection two_text_image example_header = Inr (263, 1)"
proof -
  note scan_of_two_text_image
  also have "findTextSection_loop two_text_image 64 256 3 0 =
             findTextSection_loop two_text_image 64 256 3 (Suc 0)"
  proof -
    have "(0::nat) < 3" by simp
    from findTextSection_loop_skip [OF this tests_of_two_text_image(1)]
    show ?thesis .
  qed
  also have "\<dots> = Inr (263, 1)"
  proof -
    have "Suc 0 < 3" by simp
    from findTextSection_loop_hit [OF this tests_of_two_text_image(2)]
      overlay_Elf64_Shdr_fields(2,3) [OF entry1_of_two_text_image]
    show ?thesis by (simp add: sizeof_Elf64_Shdr_def)
  qed
  finally show ?thesis .
qed



text \<open>
  On the 64 bytes of the header alone, which announce a table of three entries at offset
  64, the table lies outside the image: the locator reads the string table's entry past
  the end of the image, and what it finds there is not determined by the image.
\<close>

lemma header_of_elf64_header_bytes: "overlay_Elf64_Ehdr elf64_header_bytes = Some example_header"
  apply (simp add: overlay_Elf64_Ehdr_def bytes_at_def length_elf64_header_bytes sizeof_Elf64_Ehdr_def)
  apply (simp add: elf64_header_bytes_def example_header_def)
  done

lemma locate_header_alone:
  "findTextSection elf64_header_bytes example_header = Inl OutOfBoundsRead"
  by (simp add: findTextSection_def example_header_def overlay_Elf64_Shdr_def bytes_at_def
        length_elf64_header_bytes sizeof_Elf64_Shdr_def)










lemma string_table_of_stray_name_image:
  "overlay_Elf64_Shdr stray_name_image 64 =
     Some \<lparr>sh_name = 0, sh_type = 1, sh_flags = 0, sh_addr = 0, sh_offset = 256, sh_size = 1,
           sh_link = 0, sh_info = 0, sh_addralign = 0, sh_entsize = 0\<rparr>"
  apply (simp add: overlay_Elf64_Shdr_def bytes_at_def length_stray_name_image sizeof_Elf64_Shdr_def)
  apply (simp add: stray_name_image_def image_lengths)
  apply (simp add: section_entry_bytes_def le_word_zeros)
  done

lemma entry1_of_stray_name_image:
  "overlay_Elf64_Shdr stray_name_image 128 =
     Some \<lparr>sh_name = 1, sh_type = 1, sh_flags = 0, sh_addr = 0, sh_offset = 263, sh_size = 1,
           sh_link = 0, sh_info = 0, sh_addralign = 0, sh_entsize = 0\<rparr>"
  apply (simp add: overlay_Elf64_Shdr_def bytes_at_def length_stray_name_image sizeof_Elf64_Shdr_def)
  apply (simp add: stray_name_image_def image_lengths)
  apply (simp add: section_entry_bytes_def le_word_zeros)
  done

lemma names_of_stray_name_image:
  "field32 stray_name_image 64 = Some 0"
  "field32 stray_name_image 128 = Some 1"
  using overlay_Elf64_Shdr_fields(1) [OF string_table_of_stray_name_image]
    overlay_Elf64_Shdr_fields(1) [OF entry1_of_stray_name_image]
  by simp_all

lemma name_bytes_of_stray_name_image:
  "take 6 (drop 256 stray_name_image) = [0, 0x2E, 0x74, 0x65, 0x78, 0x74]"
  "take 6 (drop 257 stray_name_image) = dot_text @ [0]"
  by (simp_all add: stray_name_image_def image_lengths name_pool_bytes_def dot_text_def)

lemma tests_of_stray_name_image:
  "entry_is_text stray_name_image 64 256 0 = Some False"
  "entry_is_text stray_name_image 64 256 (Suc 0) = Some True"
  using strcmp_eq_dot_text_six [of 256 stray_name_image]
    strcmp_eq_dot_text_six [of 257 stray_name_image]
  by (simp_all add: entry_is_text_def sizeof_Elf64_Shdr_def names_of_stray_name_image
        length_stray_name_image name_bytes_of_stray_name_image dot_text_def)

lemma locate_stray_name_image:
  "findTextSection stray_name_image example_header = Inr (263, 1)"
proof -
  have "findTextSection stray_name_image example_header =
          findTextSection_loop stray_name_image 64 256 3 0"
    by (simp add: findTextSection_def example_header_def sizeof_Elf64_Shdr_def
          string_table_of_stray_name_image)
  also have "\<dots> = findTextSection_loop stray_name_image 64 256 3 (Suc 0)"
  proof -
    have "(0::nat) < 3" by simp
    from findTextSection_loop_skip [OF this tests_of_stray_name_image(1)]
    show ?thesis .
  qed
  also have "\<dots> = Inr (263, 1)"
  proof -
    have "Suc 0 < 3" by simp
    from findTextSection_loop_hit [OF this tests_of_stray_name_image(2)]
      overlay_Elf64_Shdr_fields(2,3) [OF entry1_of_stray_name_image]
    show ?thesis by (simp add: sizeof_Elf64_Shdr_def)
  qed
  finally show ?thesis .
qed

text \<open>
  The claim C6 as stated fails on \<open>stray_name_image\<close>. Its string table has the extent
  of one byte (offset 256, size 1). Entry 1 has the name offset 1, past that extent. The
  locator reads the six bytes from offset 257 on, outside the string-table section,
  finds \<open>.text\<close> there and returns the entry; it reports no error.
\<close>

theorem name_outside_string_table_matches:
  "map_option sh_offset (overlay_Elf64_Shdr stray_name_image 64) = Some 256 \<and>
   map_option sh_size (overlay_Elf64_Shdr stray_name_image 64) = Some 1 \<and>
   field32 stray_name_image 128 = Some 1 \<and>
   take 6 (drop (256 + 1) stray_name_image) = dot_text @ [0] \<and>
   findTextSection stray_name_image example_header = Inr (263, 1)"
  by (simp add: string_table_of_stray_name_image names_of_stray_name_image
        name_bytes_of_stray_name_image locate_stray_name_image)

theorem name_read_bounded_by_image_only_witness:
  "Suc 0 < unat (Elf64_Ehdr.e_shnum example_header) \<and>
   Elf64_Ehdr.e_shoff example_header = 64 \<and>
   overlay_Elf64_Shdr stray_name_image 64 =
     Some \<lparr>sh_name = 0, sh_type = 1, sh_flags = 0, sh_addr = 0, sh_offset = 256, sh_size = 1,
           sh_link = 0, sh_info = 0, sh_addralign = 0, sh_entsize = 0\<rparr> \<and>
   overlay_Elf64_Shdr stray_name_image 128 =
     Some \<lparr>sh_name = 1, sh_type = 1, sh_flags = 0, sh_addr = 0, sh_offset = 263, sh_size = 1,
           sh_link = 0, sh_info = 0, sh_addralign = 0, sh_entsize = 0\<rparr> \<and>
   unat (256 + ucast (1 :: 32 word) :: 64 word) + 6 \<le> length stray_name_image \<and>
   entry_is_text stray_name_image 64 256 (Suc 0) = Some True \<and>
   findTextSection_loop stray_name_image 64 256 3 (Suc 0) = Inr (263, 1)"
proof -
  let ?st = "\<lparr>sh_name = 0, sh_type = 1, sh_flags = 0, sh_addr = 0, sh_offset = 256, sh_size = 1,
           sh_link = 0, sh_info = 0, sh_addralign = 0, sh_entsize = 0\<rparr> :: Elf64_Shdr"
  let ?entry = "\<lparr>sh_name = 1, sh_type = 1, sh_flags = 0, sh_addr = 0, sh_offset = 263,
           sh_size = 1, sh_link = 0, sh_info = 0, sh_addralign = 0, sh_entsize = 0\<rparr> :: Elf64_Shdr"
  have h: "Elf64_Ehdr.e_shoff example_header = 64" "unat (Elf64_Ehdr.e_shnum example_header) = 3"
    by (simp_all add: example_header_def)
  have i: "Suc 0 < unat (Elf64_Ehdr.e_shnum example_header)"
    by (simp add: h)
  have entry: "overlay_Elf64_Shdr stray_name_image
      (unat (Elf64_Ehdr.e_shoff example_header + of_nat (sizeof_Elf64_Shdr * Suc 0))) = Some ?entry"
    by (simp add: h sizeof_Elf64_Shdr_def entry1_of_stray_name_image)
  have inside: "unat (sh_offset ?st + ucast (sh_name ?entry)) + 6 \<le> length stray_name_image"
    by (simp add: length_stray_name_image)
  from name_read_bounded_by_image_only [OF i entry inside]
  have "entry_is_text stray_name_image 64 256 (Suc 0) = Some True"
    and "findTextSection_loop stray_name_image 64 256 3 (Suc 0) = Inr (263, 1)"
    by (simp_all add: h name_bytes_of_stray_name_image)
  with i h(1) inside string_table_of_stray_name_image entry1_of_stray_name_image show ?thesis
    by simp
qed

section \<open>Properties of the pipeline\<close>

text \<open>
  Where the whole 64-byte header lies inside the image, \<open>main\<close> calls the locator on the
  header overlaid on the image.
\<close>

lemma findTextSection_of_image_header:
  assumes "overlay_Elf64_Ehdr code = Some hdr"
  shows "findTextSection_of_image code = findTextSection code hdr"
proof -
  from assms have len: "length code < 2 ^ 64" "64 \<le> length code"
    by (auto simp: overlay_Elf64_Ehdr_def bytes_at_def sizeof_Elf64_Ehdr_def
          split: if_splits option.splits)
  from assms len have f: "field64 code 40 = Some (Elf64_Ehdr.e_shoff hdr)"
    "field16 code 60 = Some (Elf64_Ehdr.e_shnum hdr)"
    by (auto simp: overlay_Elf64_Ehdr_def field64_def field16_def bytes_at_def
          sizeof_Elf64_Ehdr_def take_drop min_def)
  show ?thesis
    by (simp add: findTextSection_of_image_def f assms findTextSection_def)
qed

text \<open>
  The header fields are read as the locator comes to them: an image that ends after
  \<open>e_shoff\<close>, with \<open>e_shoff = 0\<close>, is reported as having no section table.
\<close>

lemma main_reads_e_shoff_first:
  assumes "field64 code 40 = Some 0"
  shows "snd (main code) = Inl NoSectionTable"
  using assms by (simp add: main_def findTextSection_of_image_def)

lemma main_short_image_without_table:
  "length (replicate 48 (0 :: byte)) = 48 \<and>
   overlay_Elf64_Ehdr (replicate 48 0) = None \<and>
   snd (main (replicate 48 0)) = Inl NoSectionTable"
proof -
  have "field64 (replicate 48 0) 40 = Some 0"
    by (simp add: field64_def bytes_at_def le_word_zeros)
  then show ?thesis
    by (simp add: main_reads_e_shoff_first overlay_Elf64_Ehdr_def bytes_at_def
          sizeof_Elf64_Ehdr_def)
qed

text \<open>
  A located size that is negative as a signed 64-bit value, with a wrapped sum that
  passes the check, ends in \<open>std::length_error\<close>.
\<close>

lemma main_length_error:
  assumes "findTextSection_of_image code = Inr (textSectionOffset, textSize)"
    and "unat (textSectionOffset + textSize) \<le> length code"
    and "sint textSize < 0"
  shows "snd (main code) = Inl LengthError"
  using assms by (simp add: main_def)

lemma header_of_overflow_image: "overlay_Elf64_Ehdr overflow_image = Some example_header"
  apply (simp add: overlay_Elf64_Ehdr_def bytes_at_def length_overflow_image sizeof_Elf64_Ehdr_def)
  apply (simp add: overflow_image_def image_lengths)
  apply (simp add: elf64_header_bytes_def example_header_def)
  done

lemma string_table_of_overflow_image:
  "overlay_Elf64_Shdr overflow_image 64 =
     Some \<lparr>sh_name = 0, sh_type = 1, sh_flags = 0, sh_addr = 0, sh_offset = 256, sh_size = 7,
           sh_link = 0, sh_info = 0, sh_addralign = 0, sh_entsize = 0\<rparr>"
  apply (simp add: overlay_Elf64_Shdr_def bytes_at_def length_overflow_image sizeof_Elf64_Shdr_def)
  apply (simp add: overflow_image_def image_lengths)
  apply (simp add: section_entry_bytes_def le_word_zeros)
  done

lemma entry1_of_overflow_image:
  "overlay_Elf64_Shdr overflow_image 128 =
     Some \<lparr>sh_name = 1, sh_type = 1, sh_flags = 0, sh_addr = 0,
           sh_offset = 0xFFFFFFFFFFFFFFFF, sh_size = 2,
           sh_link = 0, sh_info = 0, sh_addralign = 0, sh_entsize = 0\<rparr>"
  apply (simp add: overlay_Elf64_Shdr_def bytes_at_def length_overflow_image sizeof_Elf64_Shdr_def)
  apply (simp add: overflow_image_def image_lengths)
  apply (simp add: section_entry_bytes_def le_word_zeros)
  done

lemma names_of_overflow_image:
  "field32 overflow_image 64 = Some 0"
  "field32 overflow_image 128 = Some 1"
  using overlay_Elf64_Shdr_fields(1) [OF string_table_of_overflow_image]
    overlay_Elf64_Shdr_fields(1) [OF entry1_of_overflow_image]
  by simp_all

lemma name_bytes_of_overflow_image:
  "take 6 (drop 256 overflow_image) = [0, 0x2E, 0x74, 0x65, 0x78, 0x74]"
  "take 6 (drop 257 overflow_image) = dot_text @ [0]"
  by (simp_all add: overflow_image_def image_lengths name_pool_bytes_def dot_text_def)

lemma tests_of_overflow_image:
  "entry_is_text overflow_image 64 256 0 = Some False"
  "entry_is_text overflow_image 64 256 (Suc 0) = Some True"
  using strcmp_eq_dot_text_six [of 256 overflow_image]
    strcmp_eq_dot_text_six [of 257 overflow_image]
  by (simp_all add: entry_is_text_def sizeof_Elf64_Shdr_def names_of_overflow_image
        length_overflow_image name_bytes_of_overflow_image dot_text_def)

lemma locate_overflow_image:
  "findTextSection overflow_image example_header = Inr (0xFFFFFFFFFFFFFFFF, 2)"
proof -
  have "findTextSection overflow_image example_header =
          findTextSection_loop overflow_image 64 256 3 0"
    by (simp add: findTextSection_def example_header_def sizeof_Elf64_Shdr_def
          string_table_of_overflow_image)
  also have "\<dots> = findTextSection_loop overflow_image 64 256 3 (Suc 0)"
  proof -
    have "(0::nat) < 3" by simp
    from findTextSection_loop_skip [OF this tests_of_overflow_image(1)]
    show ?thesis .
  qed
  also have "\<dots> = Inr (0xFFFFFFFFFFFFFFFF, 2)"
  proof -
    have "Suc 0 < 3" by simp
    from findTextSection_loop_hit [OF this tests_of_overflow_image(2)]
      overlay_Elf64_Shdr_fields(2,3) [OF entry1_of_overflow_image]
    show ?thesis by (simp add: sizeof_Elf64_Shdr_def)
  qed
  finally show ?thesis .
qed

lemma printELFHeader_overflow_image:
  "printELFHeader overflow_image = Inr (ELF64 example_header)"
proof -
  have "take 5 overflow_image = [0x7F, 0x45, 0x4C, 0x46, 2]"
    by (simp add: overflow_image_def elf64_header_bytes_def)
  then have "map ((!) (take 5 overflow_image)) [0, 1, 2, 3, 4] = [0x7F, 0x45, 0x4C, 0x46, 2]"
    by simp
  then have b: "overflow_image ! 0 = 0x7F" "overflow_image ! Suc 0 = 0x45" "overflow_image ! 2 = 0x4C"
    "overflow_image ! 3 = 0x46" "overflow_image ! 4 = 2"
    by simp_all
  show ?thesis
    by (simp add: printELFHeader_def isELF_def vec_at_def length_overflow_image b
          EI_MAG0_def EI_MAG1_def EI_MAG2_def EI_MAG3_def EI_CLASS_def
          ELFMAG0_def ELFMAG1_def ELFMAG2_def ELFMAG3_def
          sizeof_Elf64_Ehdr_def header_of_overflow_image)
qed

lemma printELFHeader_two_text_image:
  "printELFHeader two_text_image = Inr (ELF64 example_header)"
proof -
  have "take 5 two_text_image = [0x7F, 0x45, 0x4C, 0x46, 2]"
    by (simp add: two_text_image_def elf64_header_bytes_def)
  then have "map ((!) (take 5 two_text_image)) [0, 1, 2, 3, 4] = [0x7F, 0x45, 0x4C, 0x46, 2]"
    by simp
  then have b: "two_text_image ! 0 = 0x7F" "two_text_image ! Suc 0 = 0x45" "two_text_image ! 2 = 0x4C"
    "two_text_image ! 3 = 0x46" "two_text_image ! 4 = 2"
    by simp_all
  show ?thesis
    by (simp add: printELFHeader_def isELF_def vec_at_def length_two_text_image b
          EI_MAG0_def EI_MAG1_def EI_MAG2_def EI_MAG3_def EI_CLASS_def
          ELFMAG0_def ELFMAG1_def ELFMAG2_def ELFMAG3_def
          sizeof_Elf64_Ehdr_def header_of_two_text_image)
qed

text \<open>
  The pipeline on \<open>two_text_image\<close>: the header is reported, the first \<open>.text\<close> entry is
  located, its one byte is copied and decoded.
\<close>

lemma main_two_text_image:
  "main two_text_image =
     (Inr (ELF64 example_header),
      Inr ([\<lparr>address = 0, mnemonic = ''nop'', operand = NoOperand, byteWidth = 1\<rparr>], None))"
proof -
  have "take 1 (drop 263 two_text_image) = [0x90]"
    by (simp add: two_text_image_def image_lengths name_pool_bytes_def)
  then have "bytes_at two_text_image 263 1 = Some [0x90]"
    by (simp add: bytes_at_def length_two_text_image)
  moreover have "disassemble [0x90] 0 =
      ([\<lparr>address = 0, mnemonic = ''nop'', operand = NoOperand, byteWidth = 1\<rparr>], None)"
    by (simp add: decoder_eval)
  ultimately show ?thesis
    by (simp add: main_def printELFHeader_two_text_image
          findTextSection_of_image_header [OF header_of_two_text_image]
          locate_two_text_image length_two_text_image)
qed

text \<open>
  Claim C2 (code defect). The claim: when a located section's offset plus size, as exact
  integers, exceeds the image length, the pipeline fails with \<open>RegionExceedsImage\<close>
  before any byte of the region is read. In the image below the section \<open>.text\<close> has the
  offset \<open>0xFFFFFFFFFFFFFFFF\<close> and the size 2: the exact sum exceeds the 265 bytes of
  the image, the 64-bit sum of the check is 1, the check passes, and the copy of the
  region reads outside the image.
\<close>

theorem region_check_wraps_around:
  "findTextSection overflow_image example_header = Inr (0xFFFFFFFFFFFFFFFF, 2) \<and>
   length overflow_image = 265 \<and>
   unat (0xFFFFFFFFFFFFFFFF :: 64 word) + unat (2 :: 64 word) > length overflow_image \<and>
   (0xFFFFFFFFFFFFFFFF :: 64 word) + 2 = 1 \<and>
   bytes_at overflow_image (unat (0xFFFFFFFFFFFFFFFF :: 64 word)) (unat (2 :: 64 word)) = None \<and>
   main overflow_image = (Inr (ELF64 example_header), Inl OutOfBoundsRead)"
  by (simp add: main_def locate_overflow_image length_overflow_image bytes_at_def
        findTextSection_of_image_header [OF header_of_overflow_image]
        printELFHeader_overflow_image)

section \<open>Properties of the header parser\<close>

text \<open>
  From five bytes on, a recognised image shorter than the header of its class is
  reported as too short.
\<close>

lemma printELFHeader_TooShort:
  assumes "isELF data" and "4 < length data"
    and "data ! 4 = 1 \<and> length data < 52 \<or> data ! 4 = 2 \<and> length data < 64"
  shows "printELFHeader data = Inl TooShort"
  using assms
  by (auto simp: printELFHeader_def vec_at_def EI_CLASS_def sizeof_Elf32_Ehdr_def
        sizeof_Elf64_Ehdr_def)

text \<open>
  Claim C5 (code defect). The claim: an image that passes the magic check and is shorter
  than the header of its class fails with \<open>TooShort\<close>, and no byte at or past the end is
  read, down to the shortest such image, which has four bytes. The magic check asks for
  four bytes; the class byte that is read next is the fifth. On the four magic bytes
  alone the read of the class byte is past the end.
\<close>

theorem class_byte_read_past_four_byte_image:
  "length [0x7F, 0x45, 0x4C, 0x46 :: byte] = 4 \<and>
   isELF [0x7F, 0x45, 0x4C, 0x46] \<and>
   vec_at [0x7F, 0x45, 0x4C, 0x46] EI_CLASS = None \<and>
   printELFHeader [0x7F, 0x45, 0x4C, 0x46] = Inl OutOfBoundsRead \<and>
   printELFHeader [0x7F, 0x45, 0x4C, 0x46] \<noteq> Inl TooShort"
  by (simp add: printELFHeader_def isELF_def vec_at_def EI_MAG0_def EI_MAG1_def EI_MAG2_def
        EI_MAG3_def EI_CLASS_def ELFMAG0_def ELFMAG1_def ELFMAG2_def ELFMAG3_def)

end
